theory Spec2Isabelle
  imports Main "HOL-Library.AList"
begin

section \<open>JavaScript values used by the settings module\<close>

text \<open>
  A plain JavaScript object with string keys is an association list in the order of
  \<^verbatim>\<open>Object.entries\<close>. \<^verbatim>\<open>o[k] = v\<close> is \<^const>\<open>AList.update\<close> (an existing
  key keeps its place, a new key is appended) and \<^verbatim>\<open>delete o[k]\<close> is
  \<^const>\<open>AList.delete\<close>. The entries of one object have distinct keys; theorems that
  need this say so with \<open>distinct (map fst entries)\<close>. Only lookups of a built object are
  observed, never the position of a key.

  Reading a property and the \<^verbatim>\<open>in\<close> operator follow the prototype chain: every
  object literal inherits the properties of \<^verbatim>\<open>Object.prototype\<close>, which are
  functions or objects, never \<^verbatim>\<open>undefined\<close>. Keys that begin with an underscore
  cannot occur in a stored record (the database refuses them as field names), so
  assigning to \<^verbatim>\<open>__proto__\<close> is not modelled.
\<close>

type_synonym 'v obj = "(string \<times> 'v) list"

definition Object_prototype_keys :: "string list" where
  "Object_prototype_keys =
     [''constructor'', ''__defineGetter__'', ''__defineSetter__'', ''hasOwnProperty'',
      ''__lookupGetter__'', ''__lookupSetter__'', ''isPrototypeOf'',
      ''propertyIsEnumerable'', ''toString'', ''valueOf'', ''__proto__'',
      ''toLocaleString'']"

datatype 'v lookup = Own 'v | Inherited | Undefined

text \<open>\<^verbatim>\<open>o[k]\<close>: an own property, an inherited one, or \<^verbatim>\<open>undefined\<close>.\<close>

definition js_get :: "'v obj \<Rightarrow> string \<Rightarrow> 'v lookup" where
  "js_get ob k =
     (case map_of ob k of
        Some v \<Rightarrow> Own v
      | None \<Rightarrow> if k \<in> set Object_prototype_keys then Inherited else Undefined)"

text \<open>\<^verbatim>\<open>k in o\<close>.\<close>

definition js_in :: "string \<Rightarrow> 'v obj \<Rightarrow> bool" where
  "js_in k ob = (case js_get ob k of Undefined \<Rightarrow> False | _ \<Rightarrow> True)"

text \<open>Truthiness of an optional string: \<^verbatim>\<open>undefined\<close> and \<^verbatim>\<open>""\<close> are falsy.\<close>

fun truthy :: "string option \<Rightarrow> bool" where
  "truthy None = False"
| "truthy (Some s) = (s \<noteq> [])"

text \<open>\<^verbatim>\<open>x || ""\<close> for an optional string.\<close>

fun or_empty :: "string option \<Rightarrow> string" where
  "or_empty None = []"
| "or_empty (Some s) = (if s \<noteq> [] then s else [])"

text \<open>\<^verbatim>\<open>s.split(":")[0]\<close> and \<^verbatim>\<open>s.startsWith(p)\<close>.\<close>

definition split_colon_first :: "string \<Rightarrow> string" where
  "split_colon_first s = takeWhile (\<lambda>c. c \<noteq> CHR '':'') s"

definition startsWith :: "string \<Rightarrow> string \<Rightarrow> bool" where
  "startsWith s p = (take (length p) s = p)"

section \<open>Errors\<close>

text \<open>
  Every \<^verbatim>\<open>throw\<close> of the source is a value: \<open>ChatError\<close> and \<open>Error\<close> carry the
  message of the source, \<open>TypeError\<close> is the runtime error of reading a property of
  \<^verbatim>\<open>undefined\<close>, \<open>DecryptionFailure\<close> is whatever \<^verbatim>\<open>decryptKey\<close> throws, and
  \<open>SchemaValidationError\<close> and \<open>DocumentNotFound\<close> are the refusals of the database.
\<close>

datatype error =
    ChatError string
  | Error string
  | TypeError
  | DecryptionFailure
  | SchemaValidationError
  | DocumentNotFound

section \<open>Data model\<close>

text \<open>
  Field names follow the source. Where two object types of the source share a field name
  the later one carries a prefix: \<open>m_id\<close>, \<open>m_name\<close> are \<^verbatim>\<open>id\<close>, \<^verbatim>\<open>name\<close> of a
  SharedModel; \<open>cm_\<close> marks a custom model, \<open>p_\<close> a resolved provider, \<open>c_name\<close> the
  customization name, \<open>new_\<close> and \<open>upd_\<close> the fields of a request entry, \<open>a_\<close> and
  \<open>u_\<close> the arguments of the full and the partial update. Numbers that are only copied
  (\<^verbatim>\<open>contextLength\<close>, \<^verbatim>\<open>maxTokens\<close>) are integers.
\<close>

datatype ModelAbility = reasoning | vision | function_calling | pdf | effort_control

record shared_model =
  m_id :: string
  m_name :: string
  shortName :: "string option"
  adapters :: "string list"
  abilities :: "ModelAbility list"
  mode :: "string option"
  contextLength :: "int option"
  maxTokens :: "int option"
  supportedImageSizes :: "string list option"
  customIcon :: "string option"
  supportsDisablingReasoning :: "bool option"

record registry_model = shared_model +
  customProviderId :: "string option"

record flagged =
  enabled :: bool

record 'k keyed = flagged +
  encryptedKey :: 'k

type_synonym credential = "string keyed"

text \<open>
  A custom provider. The key type is a parameter because the full update can build an
  entry whose \<^verbatim>\<open>encryptedKey\<close> is \<^verbatim>\<open>undefined\<close> (key type \<open>string option\<close>);
  a stored one always has a string.
\<close>

record 'k custom_provider_of = "'k keyed" +
  endpoint :: string
  name :: string

type_synonym custom_provider = "string custom_provider_of"

record general_provider = "string keyed" +
  country :: "string option"
  searchLang :: "string option"
  safesearch :: "string option"
  language :: "string option"

record custom_model = flagged +
  cm_name :: "string option"
  modelId :: string
  providerId :: string
  cm_contextLength :: int
  cm_maxTokens :: int
  cm_abilities :: "ModelAbility list"

datatype mcp_server =
  McpServer (mcp_name: string) (mcp_url: string) (mcp_type: string)
    (mcp_enabled: "bool option") (mcp_headers: "(string \<times> string) list option")

record customization =
  c_name :: "string option"
  aiPersonality :: "string option"
  additionalContext :: "string option"

text \<open>
  Modelled from the spec: the validators \<^verbatim>\<open>NonSensitiveUserSettings\<close> and
  \<^verbatim>\<open>UserSettings\<close> of \<^verbatim>\<open>schema/settings\<close> are not among the sources. The fields
  are those of the spec's UserSettings; the optional ones are those the source treats as
  possibly \<^verbatim>\<open>undefined\<close> (\<^verbatim>\<open>customThemes ?? []\<close>, \<^verbatim>\<open>generalProviders?.\<close>,
  \<^verbatim>\<open>customization: undefined\<close>, \<^verbatim>\<open>mcpServers !== undefined\<close>, onboarding "false or
  undefined"). \<^verbatim>\<open>NonSensitiveUserSettings\<close> is UserSettings without the three credential
  maps, which the full update adds to it.
\<close>

record base_settings =
  userId :: string
  searchProvider :: string
  searchIncludeSourcesByDefault :: bool
  customModels :: "custom_model obj"
  titleGenerationModel :: string
  customThemes :: "string list option"
  mcpServers :: "mcp_server list option"
  customization :: "customization option"
  onboardingCompleted :: "bool option"

record user_settings = base_settings +
  coreAIProviders :: "credential obj"
  customAIProviders :: "custom_provider obj"
  generalProviders :: "general_provider obj option"

definition general_provider_ids :: "string list" where
  "general_provider_ids = [''supermemory'', ''firecrawl'', ''tavily'', ''brave'', ''serper'']"

text \<open>
  \<^verbatim>\<open>DefaultSettings\<close>. Its \<^verbatim>\<open>generalProviders\<close> object has five properties whose value
  is \<^verbatim>\<open>undefined\<close>: an object with no usable entry, but not \<^verbatim>\<open>undefined\<close> itself.
\<close>

definition DefaultSettings :: "string \<Rightarrow> user_settings" where
  "DefaultSettings uid =
     \<lparr> userId = uid,
       searchProvider = ''firecrawl'',
       searchIncludeSourcesByDefault = False,
       customModels = [],
       titleGenerationModel = ''gemini-2.0-flash-lite'',
       customThemes = Some [],
       mcpServers = Some [],
       customization = None,
       onboardingCompleted = Some False,
       coreAIProviders = [],
       customAIProviders = [],
       generalProviders = Some [] \<rparr>"

section \<open>The settings table\<close>

text \<open>
  The table is the list of its documents in creation order; the \<^verbatim>\<open>_id\<close> of a document
  is its position, so ids are unique and documents are never deleted.
  \<^verbatim>\<open>withIndex("byUser", q => q.eq("userId", userId)).first()\<close> is the first document of
  that user.
\<close>

type_synonym db = "user_settings list"

fun first_byUser :: "db \<Rightarrow> string \<Rightarrow> nat option" where
  "first_byUser [] uid = None"
| "first_byUser (d # ds) uid =
     (if userId d = uid then Some 0 else map_option Suc (first_byUser ds uid))"

text \<open>\<^verbatim>\<open>getSettings\<close>: the stored document with its \<^verbatim>\<open>_id\<close>, or the default without one.\<close>

definition getSettings :: "db \<Rightarrow> string \<Rightarrow> nat option \<times> user_settings" where
  "getSettings db uid =
     (case first_byUser db uid of
        None \<Rightarrow> (None, DefaultSettings uid)
      | Some i \<Rightarrow> (Some i, db ! i))"

text \<open>
  \<^verbatim>\<open>ctx.db.patch\<close> merges shallowly: a field the new value has replaces the stored one, a
  field it lacks stays.
\<close>

definition patch_doc :: "user_settings \<Rightarrow> user_settings \<Rightarrow> user_settings" where
  "patch_doc old new =
     new \<lparr> customThemes := (case customThemes new of None \<Rightarrow> customThemes old | Some t \<Rightarrow> Some t),
           mcpServers := (case mcpServers new of None \<Rightarrow> mcpServers old | Some m \<Rightarrow> Some m),
           customization := (case customization new of None \<Rightarrow> customization old | Some c \<Rightarrow> Some c),
           onboardingCompleted :=
             (case onboardingCompleted new of None \<Rightarrow> onboardingCompleted old | Some b \<Rightarrow> Some b),
           generalProviders :=
             (case generalProviders new of None \<Rightarrow> generalProviders old | Some g \<Rightarrow> Some g) \<rparr>"

text \<open>
  Modelled from the spec: the table schema is not among the sources. The database checks
  every document it is asked to write against the schema and refuses the write otherwise.
  Of that check the model keeps what the handlers can violate: \<^verbatim>\<open>generalProviders\<close> is
  keyed by the five fixed identifiers (here), and the \<^verbatim>\<open>encryptedKey\<close> of a credential
  is a required string (\<open>defined_keys\<close> below). A document id is a non-empty string, so
  \<^verbatim>\<open>if (settings._id)\<close> asks whether the settings were read from the table.
\<close>

definition schema_ok :: "user_settings \<Rightarrow> bool" where
  "schema_ok d =
     (case generalProviders d of
        None \<Rightarrow> True
      | Some g \<Rightarrow> list_all (\<lambda>k. k \<in> set general_provider_ids) (map fst g))"

definition db_patch :: "db \<Rightarrow> nat \<Rightarrow> user_settings \<Rightarrow> error + db" where
  "db_patch db i new =
     (if \<not> i < length db then Inl DocumentNotFound
      else if \<not> schema_ok (patch_doc (db ! i) new) then Inl SchemaValidationError
      else Inr (db [i := patch_doc (db ! i) new]))"

definition db_insert :: "db \<Rightarrow> user_settings \<Rightarrow> error + db" where
  "db_insert db new =
     (if \<not> schema_ok new then Inl SchemaValidationError else Inr (db @ [new]))"

text \<open>
  The end of every mutation:
  \<^verbatim>\<open>if (settings._id) patch(settings._id, newSettings) else insert("settings", newSettings)\<close>.
  The result is the error thrown, if any, and the table afterwards.
\<close>

definition save :: "db \<Rightarrow> nat option \<Rightarrow> user_settings \<Rightarrow> error option \<times> db" where
  "save db oid new =
     (case (case oid of Some i \<Rightarrow> db_patch db i new | None \<Rightarrow> db_insert db new) of
        Inl e \<Rightarrow> (Some e, db)
      | Inr db' \<Rightarrow> (None, db'))"

text \<open>The document a successful save wrote.\<close>

definition written_doc :: "nat option \<Rightarrow> db \<Rightarrow> user_settings" where
  "written_doc oid db' = (case oid of Some i \<Rightarrow> db' ! i | None \<Rightarrow> last db')"

section \<open>Model catalog\<close>

definition base_model :: "string \<Rightarrow> string \<Rightarrow> string list \<Rightarrow> ModelAbility list \<Rightarrow> shared_model" where
  "base_model i n ads abils =
     \<lparr> m_id = i, m_name = n, shortName = None, adapters = ads, abilities = abils,
       mode = None, contextLength = None, maxTokens = None, supportedImageSizes = None,
       customIcon = None, supportsDisablingReasoning = None \<rparr>"

definition MODELS_SHARED :: "shared_model list" where
  "MODELS_SHARED =
   [ (base_model ''deepseek-v3'' ''DeepSeek V3''
        [''openrouter:deepseek/deepseek-chat-v3-0324:free''] [function_calling])
       \<lparr> shortName := Some ''DS V3'', customIcon := Some ''deepseek'' \<rparr>,
     (base_model ''deepseek-r1'' ''DeepSeek R1''
        [''openrouter:deepseek/deepseek-r1-0528:free''] [reasoning, function_calling])
       \<lparr> shortName := Some ''DS R1'', customIcon := Some ''deepseek'' \<rparr>,
     (base_model ''gemini-2.5-flash'' ''Gemini 2.5 Flash''
        [''google:gemini-2.5-flash'']
        [vision, function_calling, reasoning, pdf, effort_control])
       \<lparr> shortName := Some ''2.5 Flash'', supportsDisablingReasoning := Some True \<rparr>,
     (base_model ''gpt-4o'' ''GPT 4o''
        [''openai:gpt-4o'', ''openrouter:openai/gpt-4o''] [vision, function_calling, pdf])
       \<lparr> shortName := Some ''4o'' \<rparr>,
     (base_model ''gpt-4o-mini'' ''GPT 4o mini''
        [''i3-openai:gpt-4o-mini'', ''openai:gpt-4o-mini''] [vision, function_calling, pdf])
       \<lparr> shortName := Some ''4o mini'' \<rparr>,
     base_model ''gpt-4.1'' ''GPT 4.1''
        [''openai:gpt-4.1'', ''openrouter:openai/gpt-4.1''] [vision, function_calling, pdf],
     (base_model ''gpt-4.1-mini'' ''GPT 4.1 mini''
        [''i3-openai:gpt-4.1-mini'', ''openai:gpt-4.1-mini''] [vision, function_calling, pdf])
       \<lparr> shortName := Some ''4.1 mini'' \<rparr>,
     (base_model ''gpt-4.1-nano'' ''GPT 4.1 nano''
        [''i3-openai:gpt-4.1-nano'', ''openai:gpt-4.1-nano''] [vision, function_calling, pdf])
       \<lparr> shortName := Some ''4.1 nano'' \<rparr>,
     (base_model ''claude-opus-4'' ''Claude Opus 4''
        [''anthropic:claude-opus-4-0'', ''openrouter:anthropic/claude-opus-4'']
        [reasoning, vision, function_calling, pdf, effort_control])
       \<lparr> shortName := Some ''Opus 4'', supportsDisablingReasoning := Some True \<rparr>,
     (base_model ''claude-sonnet-4'' ''Claude Sonnet 4''
        [''anthropic:claude-sonnet-4-0'', ''openrouter:anthropic/claude-sonnet-4'']
        [reasoning, vision, function_calling, pdf, effort_control])
       \<lparr> shortName := Some ''Sonnet 4'', supportsDisablingReasoning := Some True \<rparr>,
     (base_model ''claude-3-7-sonnet'' ''Claude 3.7 Sonnet''
        [''anthropic:claude-3-7-sonnet'', ''openrouter:anthropic/claude-3.7-sonnet'']
        [reasoning, vision, function_calling, pdf, effort_control])
       \<lparr> shortName := Some ''3.7 Sonnet'', supportsDisablingReasoning := Some True \<rparr>,
     (base_model ''gemini-2.5-flash-lite'' ''Gemini 2.5 Flash Lite''
        [''i3-google:gemini-2.5-flash-lite-preview-06-17'',
         ''google:gemini-2.5-flash-lite-preview-06-17'']
        [vision, function_calling, reasoning, pdf, effort_control])
       \<lparr> shortName := Some ''2.5 Flash Lite'', supportsDisablingReasoning := Some True \<rparr>,
     (base_model ''gemini-2.0-flash'' ''Gemini 2.0 Flash''
        [''i3-google:gemini-2.0-flash'', ''google:gemini-2.0-flash'',
         ''openrouter:google/gemini-2.0-flash-001'']
        [vision, function_calling, pdf])
       \<lparr> shortName := Some ''2.0 Flash'' \<rparr>,
     (base_model ''gemini-2.0-flash-lite'' ''Gemini 2.0 Flash Lite''
        [''i3-google:gemini-2.0-flash-lite'', ''google:gemini-2.0-flash-lite'']
        [vision, function_calling, pdf])
       \<lparr> shortName := Some ''2.0 Flash Lite'' \<rparr>,
     (base_model ''gemini-2.0-flash-image-generation'' ''Gemini 2.0 Flash Imagen''
        [''i3-google:gemini-2.0-flash-exp'', ''google:gemini-2.0-flash-exp''] [vision])
       \<lparr> shortName := Some ''2.0 Flash Imagen'' \<rparr>,
     (base_model ''sdxl-lightning'' ''SDXL Lightning'' [''fal:fal-ai/fast-lightning-sdxl''] [])
       \<lparr> shortName := Some ''SDXL'', mode := Some ''image'',
         supportedImageSizes := Some [''1:1'', ''1:1-hd'', ''3:4'', ''4:3'', ''9:16'', ''16:9''],
         customIcon := Some ''stability-ai'' \<rparr>,
     (base_model ''flux-schnell'' ''FLUX.1 [schnell]'' [''fal:fal-ai/flux/schnell''] [])
       \<lparr> shortName := Some ''flux.schnell'', mode := Some ''image'',
         supportedImageSizes := Some [''1:1'', ''1:1-hd'', ''3:4'', ''4:3'', ''9:16'', ''16:9''],
         customIcon := Some ''bflabs'' \<rparr>,
     (base_model ''flux-dev'' ''FLUX.1 [dev]'' [''fal:fal-ai/flux/dev''] [])
       \<lparr> shortName := Some ''flux.dev'', mode := Some ''image'',
         supportedImageSizes := Some [''1:1'', ''1:1-hd'', ''3:4'', ''4:3'', ''9:16'', ''16:9''],
         customIcon := Some ''bflabs'' \<rparr>,
     (base_model ''google-imagen-4'' ''Google Imagen 4'' [''fal:fal-ai/imagen4/preview''] [])
       \<lparr> shortName := Some ''Imagen 4'', mode := Some ''image'',
         supportedImageSizes := Some [''1:1-hd'', ''16:9-hd'', ''9:16-hd'', ''3:4-hd'', ''4:3-hd''],
         customIcon := Some ''google'' \<rparr>,
     (base_model ''llama-4-scout-17b-16e-instruct'' ''Llama 4 Scout 17B 16E''
        [''groq:meta-llama/llama-4-scout-17b-16e-instruct''] [vision])
       \<lparr> shortName := Some ''Llama 4 Scout 17B'', customIcon := Some ''meta'' \<rparr>,
     (base_model ''llama-4-maverick-17b-128e-instruct'' ''Llama 4 Maverick 17B 128E Instruct''
        [''groq:meta-llama/llama-4-maverick-17b-128e-instruct''] [vision])
       \<lparr> shortName := Some ''Llama 4 Maverick 17B'', customIcon := Some ''meta'' \<rparr>,
     (base_model ''llama-3-1-8b-instant'' ''Llama 3.1 8B Instant''
        [''i3-groq:llama-3.1-8b-instant'', ''groq:llama-3.1-8b-instant''] [])
       \<lparr> shortName := Some ''Llama 3.1 8B'', customIcon := Some ''meta'' \<rparr>,
     (base_model ''whisper-large-v3-turbo'' ''Whisper Large v3 Turbo''
        [''groq:whisper-large-v3-turbo''] [])
       \<lparr> mode := Some ''speech-to-text'' \<rparr> ]"

section \<open>Registry resolver\<close>

text \<open>
  \<^verbatim>\<open>decryptKey\<close> of \<^verbatim>\<open>lib/encryption\<close> is a collaborator outside the sources: a
  parameter that returns the plaintext or throws.
\<close>

record resolved_provider =
  key :: string
  p_endpoint :: "string option"
  p_name :: "string option"

record registry =
  providers :: "resolved_provider obj"
  models :: "registry_model obj"
  settings :: "nat option \<times> user_settings"

text \<open>The loop over \<^verbatim>\<open>Object.entries(settings.coreAIProviders)\<close>.\<close>

fun registry_core_providers ::
  "(string \<Rightarrow> error + string) \<Rightarrow> credential obj \<Rightarrow> resolved_provider obj
     \<Rightarrow> error + resolved_provider obj" where
  "registry_core_providers decryptKey [] ps = Inr ps"
| "registry_core_providers decryptKey ((pid, provider) # rest) ps =
     (if \<not> enabled provider then registry_core_providers decryptKey rest ps
      else case decryptKey (encryptedKey provider) of
             Inl e \<Rightarrow> Inl e
           | Inr k \<Rightarrow>
               registry_core_providers decryptKey rest
                 (AList.update pid \<lparr> key = k, p_endpoint = None, p_name = Some pid \<rparr> ps))"

text \<open>The loop over \<^verbatim>\<open>Object.entries(settings.customAIProviders)\<close>.\<close>

fun registry_custom_providers ::
  "(string \<Rightarrow> error + string) \<Rightarrow> custom_provider obj \<Rightarrow> resolved_provider obj
     \<Rightarrow> error + resolved_provider obj" where
  "registry_custom_providers decryptKey [] ps = Inr ps"
| "registry_custom_providers decryptKey ((pid, provider) # rest) ps =
     (if \<not> enabled provider then registry_custom_providers decryptKey rest ps
      else case decryptKey (encryptedKey provider) of
             Inl e \<Rightarrow> Inl e
           | Inr k \<Rightarrow>
               registry_custom_providers decryptKey rest
                 (AList.update pid
                    \<lparr> key = k, p_endpoint = Some (endpoint provider),
                      p_name = Some (name provider) \<rparr> ps))"

text \<open>
  The inner loop over \<^verbatim>\<open>model.adapters\<close>; the third argument is the array
  \<^verbatim>\<open>available_adapters\<close> built so far, \<^verbatim>\<open>push\<close> appends.
\<close>

fun available_adapters_loop ::
  "resolved_provider obj \<Rightarrow> string list \<Rightarrow> string list \<Rightarrow> string list" where
  "available_adapters_loop ps [] available = available"
| "available_adapters_loop ps (adapter # rest) available =
     (let provider = split_colon_first adapter in
      if js_in provider ps \<or> startsWith provider ''i3-''
      then available_adapters_loop ps rest (available @ [adapter])
      else available_adapters_loop ps rest available)"

definition available_adapters :: "resolved_provider obj \<Rightarrow> shared_model \<Rightarrow> string list" where
  "available_adapters ps model = available_adapters_loop ps (adapters model) []"

text \<open>The entry written for a catalog model, and the loop over the catalog.\<close>

definition catalog_entry :: "resolved_provider obj \<Rightarrow> shared_model \<Rightarrow> registry_model" where
  "catalog_entry ps model =
     \<lparr> m_id = m_id model, m_name = m_name model, shortName = None,
       adapters = available_adapters ps model, abilities = abilities model,
       mode = mode model, contextLength = None, maxTokens = None,
       supportedImageSizes = supportedImageSizes model, customIcon = None,
       supportsDisablingReasoning = None, customProviderId = None \<rparr>"

fun registry_catalog_models ::
  "resolved_provider obj \<Rightarrow> shared_model list \<Rightarrow> registry_model obj \<Rightarrow> registry_model obj" where
  "registry_catalog_models ps [] ms = ms"
| "registry_catalog_models ps (model # rest) ms =
     registry_catalog_models ps rest (AList.update (m_id model) (catalog_entry ps model) ms)"

text \<open>The entry written for an enabled custom model, and the loop over the custom models.\<close>

definition custom_entry :: "custom_model \<Rightarrow> registry_model" where
  "custom_entry model =
     \<lparr> m_id = modelId model,
       m_name = (case cm_name model of None \<Rightarrow> modelId model | Some n \<Rightarrow> n),
       shortName = None,
       adapters = [providerId model @ '':'' @ modelId model],
       abilities = cm_abilities model,
       mode = None,
       contextLength = Some (cm_contextLength model),
       maxTokens = Some (cm_maxTokens model),
       supportedImageSizes = None, customIcon = None, supportsDisablingReasoning = None,
       customProviderId = Some (providerId model) \<rparr>"

fun registry_custom_models :: "custom_model obj \<Rightarrow> registry_model obj \<Rightarrow> registry_model obj" where
  "registry_custom_models [] ms = ms"
| "registry_custom_models ((k, model) # rest) ms =
     (if \<not> enabled model then registry_custom_models rest ms
      else registry_custom_models rest (AList.update k (custom_entry model) ms))"

definition getUserRegistryInternal ::
  "(string \<Rightarrow> error + string) \<Rightarrow> db \<Rightarrow> string \<Rightarrow> error + registry" where
  "getUserRegistryInternal decryptKey db uid =
     (let st = getSettings db uid in
      case registry_core_providers decryptKey (coreAIProviders (snd st)) [] of
        Inl e \<Rightarrow> Inl e
      | Inr ps1 \<Rightarrow>
          (case registry_custom_providers decryptKey (customAIProviders (snd st)) ps1 of
             Inl e \<Rightarrow> Inl e
           | Inr ps \<Rightarrow>
               Inr \<lparr> providers = ps,
                     models =
                       registry_custom_models (customModels (snd st))
                         (registry_catalog_models ps MODELS_SHARED []),
                     settings = st \<rparr>))"

section \<open>Key queries for the general providers\<close>

text \<open>
  Both queries return the plaintext or \<^verbatim>\<open>null\<close> (\<open>None\<close>); the
  \<^verbatim>\<open>try\<close>/\<^verbatim>\<open>catch\<close> turns a throwing \<^verbatim>\<open>decryptKey\<close> into \<^verbatim>\<open>null\<close>.
\<close>

definition decrypt_or_null :: "(string \<Rightarrow> error + string) \<Rightarrow> string \<Rightarrow> string option" where
  "decrypt_or_null decryptKey c = (case decryptKey c of Inl e \<Rightarrow> None | Inr k \<Rightarrow> Some k)"

definition getDecryptedGeneralProviderKey ::
  "(string \<Rightarrow> error + string) \<Rightarrow> db \<Rightarrow> string \<Rightarrow> string \<Rightarrow> string option" where
  "getDecryptedGeneralProviderKey decryptKey db pid uid =
     (case generalProviders (snd (getSettings db uid)) of
        None \<Rightarrow> None
      | Some g \<Rightarrow>
          (case js_get g pid of
             Own providerConfig \<Rightarrow>
               if enabled providerConfig
               then (if encryptedKey providerConfig \<noteq> []
                     then decrypt_or_null decryptKey (encryptedKey providerConfig)
                     else None)
               else None
           | Inherited \<Rightarrow> None
           | Undefined \<Rightarrow> None))"

definition getSupermemoryKey ::
  "(string \<Rightarrow> error + string) \<Rightarrow> db \<Rightarrow> string \<Rightarrow> string option" where
  "getSupermemoryKey decryptKey db uid =
     (case generalProviders (snd (getSettings db uid)) of
        None \<Rightarrow> None
      | Some g \<Rightarrow>
          (case js_get g ''supermemory'' of
             Own supermemory \<Rightarrow>
               if enabled supermemory
               then (if encryptedKey supermemory \<noteq> []
                     then decrypt_or_null decryptKey (encryptedKey supermemory)
                     else None)
               else None
           | Inherited \<Rightarrow> None
           | Undefined \<Rightarrow> None))"

section \<open>Settings mutations\<close>

text \<open>
  \<^verbatim>\<open>getUserIdentity(ctx.auth, { allowAnons: false })\<close> of \<^verbatim>\<open>lib/identity\<close> is a
  collaborator outside the sources; its result is an argument of every handler: an
  object with an \<^verbatim>\<open>error\<close> property, or one with the caller's \<^verbatim>\<open>id\<close>.
  \<^verbatim>\<open>encryptKey\<close> of \<^verbatim>\<open>lib/encryption\<close> is a parameter too, a function from plaintext
  to ciphertext.
\<close>

datatype identity = NoIdentity | Identity string

record key_update = flagged +
  newKey :: "string option"

record custom_key_update = key_update +
  new_name :: string
  new_endpoint :: string

record general_key_update = key_update +
  upd_country :: "string option"
  upd_searchLang :: "string option"
  upd_safesearch :: "string option"
  upd_language :: "string option"

text \<open>\<^verbatim>\<open>x?.encryptedKey\<close> of a looked-up entry.\<close>

fun optional_key :: "('k, 'z) keyed_scheme lookup \<Rightarrow> 'k option" where
  "optional_key (Own c) = Some (encryptedKey c)"
| "optional_key Inherited = None"
| "optional_key Undefined = None"

text \<open>\<^verbatim>\<open>u.newKey ? await encryptKey(u.newKey) : stored\<close>, for a \<open>stored\<close> that cannot throw.\<close>

fun new_or_stored :: "(string \<Rightarrow> string) \<Rightarrow> string option \<Rightarrow> string \<Rightarrow> string" where
  "new_or_stored encryptKey None stored = stored"
| "new_or_stored encryptKey (Some k) stored = (if k \<noteq> [] then encryptKey k else stored)"

subsection \<open>Full update\<close>

record full_update_args =
  a_userId :: string
  baseSettings :: base_settings
  coreProviders :: "key_update obj"
  customProviders :: "custom_key_update obj"
  a_generalProviders :: "general_key_update obj option"
  a_supermemory :: "key_update option"
  a_mcpServers :: "mcp_server list option"

text \<open>
  The loop over \<^verbatim>\<open>Object.entries(args.coreProviders)\<close>; \<open>stored\<close> is
  \<^verbatim>\<open>settings.coreAIProviders\<close>, the last argument \<^verbatim>\<open>newSettings.coreAIProviders\<close>.
\<close>

fun update_core_providers ::
  "(string \<Rightarrow> string) \<Rightarrow> credential obj \<Rightarrow> key_update obj \<Rightarrow> credential obj \<Rightarrow> credential obj" where
  "update_core_providers encryptKey stored [] new = new"
| "update_core_providers encryptKey stored ((pid, provider) # rest) new =
     update_core_providers encryptKey stored rest
       (AList.update pid
          \<lparr> enabled = enabled provider,
            encryptedKey =
              new_or_stored encryptKey (newKey provider)
                (or_empty (optional_key (js_get stored pid))) \<rparr> new)"

text \<open>
  \<^verbatim>\<open>settings.customAIProviders[providerId].encryptedKey\<close>, without optional chaining:
  a TypeError when the entry is \<^verbatim>\<open>undefined\<close>, \<^verbatim>\<open>undefined\<close> when the name is
  inherited from \<^verbatim>\<open>Object.prototype\<close>.
\<close>

definition stored_custom_key :: "custom_provider obj \<Rightarrow> string \<Rightarrow> error + string option" where
  "stored_custom_key stored pid =
     (case js_get stored pid of
        Own c \<Rightarrow> Inr (Some (encryptedKey c))
      | Inherited \<Rightarrow> Inr None
      | Undefined \<Rightarrow> Inl TypeError)"

fun custom_key ::
  "(string \<Rightarrow> string) \<Rightarrow> custom_provider obj \<Rightarrow> string \<Rightarrow> string option
     \<Rightarrow> error + string option" where
  "custom_key encryptKey stored pid None = stored_custom_key stored pid"
| "custom_key encryptKey stored pid (Some k) =
     (if k \<noteq> [] then Inr (Some (encryptKey k)) else stored_custom_key stored pid)"

text \<open>The loop over \<^verbatim>\<open>Object.entries(args.customProviders)\<close>.\<close>

fun update_custom_providers ::
  "(string \<Rightarrow> string) \<Rightarrow> custom_provider obj \<Rightarrow> custom_key_update obj
     \<Rightarrow> string option custom_provider_of obj \<Rightarrow> error + string option custom_provider_of obj" where
  "update_custom_providers encryptKey stored [] new = Inr new"
| "update_custom_providers encryptKey stored ((pid, provider) # rest) new =
     (case custom_key encryptKey stored pid (newKey provider) of
        Inl e \<Rightarrow> Inl e
      | Inr k \<Rightarrow>
          update_custom_providers encryptKey stored rest
            (AList.update pid
               \<lparr> enabled = enabled provider, encryptedKey = k,
                 endpoint = new_endpoint provider, name = new_name provider \<rparr> new))"

text \<open>
  Modelled from the spec: the table schema is not among the sources. A credential has an
  \<^verbatim>\<open>encryptedKey\<close>, so a document with an entry whose key is \<^verbatim>\<open>undefined\<close> is
  refused by the write; the entries that pass are the stored credentials.
\<close>

fun defined_keys :: "string option custom_provider_of obj \<Rightarrow> custom_provider obj option" where
  "defined_keys [] = Some []"
| "defined_keys ((pid, p) # rest) =
     (case encryptedKey p of
        None \<Rightarrow> None
      | Some k \<Rightarrow>
          map_option
            ((#) (pid, \<lparr> enabled = enabled p, encryptedKey = k,
                         endpoint = endpoint p, name = name p \<rparr>))
            (defined_keys rest))"

text \<open>The entry the three branches (brave, serper, the others) build for a general provider.\<close>

definition general_entry ::
  "(string \<Rightarrow> string) \<Rightarrow> string \<Rightarrow> general_key_update \<Rightarrow> string option \<Rightarrow> general_provider" where
  "general_entry encryptKey pid u existing =
     (if pid = ''brave'' then
        \<lparr> enabled = enabled u,
          encryptedKey = new_or_stored encryptKey (newKey u) (or_empty existing),
          country = upd_country u, searchLang = upd_searchLang u,
          safesearch = upd_safesearch u, language = None \<rparr>
      else if pid = ''serper'' then
        \<lparr> enabled = enabled u,
          encryptedKey = new_or_stored encryptKey (newKey u) (or_empty existing),
          country = upd_country u, searchLang = None,
          safesearch = None, language = upd_language u \<rparr>
      else
        \<lparr> enabled = enabled u,
          encryptedKey = new_or_stored encryptKey (newKey u) (or_empty existing),
          country = None, searchLang = None, safesearch = None, language = None \<rparr>)"

text \<open>
  The five properties the full update copies from the stored \<^verbatim>\<open>generalProviders\<close>;
  a property whose value is \<^verbatim>\<open>undefined\<close> is no entry.
\<close>

definition stored_general :: "user_settings \<Rightarrow> general_provider obj" where
  "stored_general st = (case generalProviders st of None \<Rightarrow> [] | Some g \<Rightarrow> g)"

definition copy_general :: "general_provider obj \<Rightarrow> general_provider obj" where
  "copy_general g =
     List.map_filter (\<lambda>k. map_option (Pair k) (map_of g k)) general_provider_ids"

text \<open>The loop over \<^verbatim>\<open>Object.entries(args.generalProviders)\<close>.\<close>

fun update_general_providers ::
  "(string \<Rightarrow> string) \<Rightarrow> general_provider obj \<Rightarrow> general_key_update obj
     \<Rightarrow> general_provider obj \<Rightarrow> general_provider obj" where
  "update_general_providers encryptKey stored [] new = new"
| "update_general_providers encryptKey stored ((pid, providerData) # rest) new =
     update_general_providers encryptKey stored rest
       (AList.update pid
          (general_entry encryptKey pid providerData (optional_key (js_get stored pid))) new)"

definition updateUserSettings ::
  "(string \<Rightarrow> string) \<Rightarrow> identity \<Rightarrow> full_update_args \<Rightarrow> db \<Rightarrow> error option \<times> db" where
  "updateUserSettings encryptKey user args db =
     (case user of
        NoIdentity \<Rightarrow> (Some (ChatError ''unauthorized:api''), db)
      | Identity uid \<Rightarrow>
          if uid \<noteq> a_userId args then (Some (ChatError ''unauthorized:api''), db)
          else
            (let st = getSettings db (a_userId args);
                 core = update_core_providers encryptKey (coreAIProviders (snd st))
                          (coreProviders args) []
             in case update_custom_providers encryptKey (customAIProviders (snd st))
                       (customProviders args) [] of
                  Inl e \<Rightarrow> (Some e, db)
                | Inr custom \<Rightarrow>
                    (let general0 = copy_general (stored_general (snd st));
                         general1 =
                           (case a_generalProviders args of
                              None \<Rightarrow> general0
                            | Some gs \<Rightarrow>
                                update_general_providers encryptKey (stored_general (snd st))
                                  gs general0);
                         general2 =
                           (case a_supermemory args of
                              None \<Rightarrow> general1
                            | Some sm \<Rightarrow>
                                AList.update ''supermemory''
                                  \<lparr> enabled = enabled sm,
                                    encryptedKey =
                                      new_or_stored encryptKey (newKey sm)
                                        (or_empty (optional_key
                                           (js_get (stored_general (snd st)) ''supermemory''))),
                                    country = None, searchLang = None, safesearch = None,
                                    language = None \<rparr> general1)
                     in case defined_keys custom of
                          None \<Rightarrow> (Some SchemaValidationError, db)
                        | Some custom' \<Rightarrow>
                            save db (fst st)
                              \<lparr> userId = userId (baseSettings args),
                                searchProvider = searchProvider (baseSettings args),
                                searchIncludeSourcesByDefault =
                                  searchIncludeSourcesByDefault (baseSettings args),
                                customModels = customModels (baseSettings args),
                                titleGenerationModel = titleGenerationModel (baseSettings args),
                                customThemes = customThemes (baseSettings args),
                                mcpServers = mcpServers (baseSettings args),
                                customization = customization (baseSettings args),
                                onboardingCompleted = onboardingCompleted (baseSettings args),
                                coreAIProviders = core,
                                customAIProviders = custom',
                                generalProviders = Some general2 \<rparr>)))"

subsection \<open>Themes\<close>

definition themes_of :: "user_settings \<Rightarrow> string list" where
  "themes_of st = (case customThemes st of None \<Rightarrow> [] | Some t \<Rightarrow> t)"

definition addUserTheme :: "identity \<Rightarrow> string \<Rightarrow> db \<Rightarrow> error option \<times> db" where
  "addUserTheme user url db =
     (case user of
        NoIdentity \<Rightarrow> (Some (Error ''Unauthorized''), db)
      | Identity uid \<Rightarrow>
          (let st = getSettings db uid; existingThemes = themes_of (snd st)
           in if url \<in> set existingThemes then (None, db)
              else if length existingThemes \<ge> 5
              then (Some (Error ''Maximum number of themes reached''), db)
              else save db (fst st) ((snd st) \<lparr> customThemes := Some (existingThemes @ [url]) \<rparr>)))"

subsection \<open>Partial update\<close>

record partial_update_args =
  u_searchProvider :: "string option"
  u_searchIncludeSourcesByDefault :: "bool option"
  u_titleGenerationModel :: "string option"
  u_customization :: "customization option"
  coreProviderUpdates :: "key_update obj option"
  customProviderUpdates :: "custom_key_update option obj option"
  generalProviderUpdates :: "general_key_update obj option"
  customModelUpdates :: "custom_model option obj option"
  u_mcpServers :: "mcp_server list option"
  addTheme :: "string option"
  removeTheme :: "string option"

text \<open>
  \<^verbatim>\<open>newSettings = { ...settings }\<close> is a shallow copy: \<^verbatim>\<open>newSettings.coreAIProviders\<close>
  and \<^verbatim>\<open>settings.coreAIProviders\<close> are one object, and so are the custom providers and
  an existing \<^verbatim>\<open>generalProviders\<close>. The loops therefore read the stored key of an entry
  from the object they are writing, which is their last argument.
\<close>

fun patch_core_providers ::
  "(string \<Rightarrow> string) \<Rightarrow> key_update obj \<Rightarrow> credential obj \<Rightarrow> credential obj" where
  "patch_core_providers encryptKey [] cur = cur"
| "patch_core_providers encryptKey ((pid, u) # rest) cur =
     patch_core_providers encryptKey rest
       (AList.update pid
          \<lparr> enabled = enabled u,
            encryptedKey =
              new_or_stored encryptKey (newKey u) (or_empty (optional_key (js_get cur pid))) \<rparr>
          cur)"

fun patch_custom_providers ::
  "(string \<Rightarrow> string) \<Rightarrow> custom_key_update option obj \<Rightarrow> custom_provider obj
     \<Rightarrow> custom_provider obj" where
  "patch_custom_providers encryptKey [] cur = cur"
| "patch_custom_providers encryptKey ((pid, None) # rest) cur =
     patch_custom_providers encryptKey rest (AList.delete pid cur)"
| "patch_custom_providers encryptKey ((pid, Some u) # rest) cur =
     patch_custom_providers encryptKey rest
       (AList.update pid
          \<lparr> enabled = enabled u,
            encryptedKey =
              new_or_stored encryptKey (newKey u) (or_empty (optional_key (js_get cur pid))),
            endpoint = new_endpoint u, name = new_name u \<rparr>
          cur)"

text \<open>
  The loop over \<^verbatim>\<open>Object.entries(args.generalProviderUpdates)\<close>. \<open>shared\<close> says whether
  \<^verbatim>\<open>settings.generalProviders\<close> existed and so is the object being written; otherwise it
  stays \<^verbatim>\<open>undefined\<close> and no entry has a stored key.
\<close>

fun patch_general_providers ::
  "(string \<Rightarrow> string) \<Rightarrow> bool \<Rightarrow> general_key_update obj \<Rightarrow> general_provider obj
     \<Rightarrow> general_provider obj" where
  "patch_general_providers encryptKey shared [] cur = cur"
| "patch_general_providers encryptKey shared ((pid, u) # rest) cur =
     patch_general_providers encryptKey shared rest
       (AList.update pid
          (general_entry encryptKey pid u
             (if shared then optional_key (js_get cur pid) else None))
          cur)"

fun patch_custom_models :: "custom_model option obj \<Rightarrow> custom_model obj \<Rightarrow> custom_model obj" where
  "patch_custom_models [] cur = cur"
| "patch_custom_models ((k, None) # rest) cur = patch_custom_models rest (AList.delete k cur)"
| "patch_custom_models ((k, Some u) # rest) cur = patch_custom_models rest (AList.update k u cur)"

text \<open>\<^verbatim>\<open>{ ...newSettings.customization, ...args.customization }\<close>.\<close>

definition merge_customization :: "customization option \<Rightarrow> customization \<Rightarrow> customization" where
  "merge_customization old new =
     (let old' = (case old of
                    None \<Rightarrow> \<lparr> c_name = None, aiPersonality = None, additionalContext = None \<rparr>
                  | Some c \<Rightarrow> c)
      in \<lparr> c_name = (case c_name new of None \<Rightarrow> c_name old' | Some v \<Rightarrow> Some v),
           aiPersonality =
             (case aiPersonality new of None \<Rightarrow> aiPersonality old' | Some v \<Rightarrow> Some v),
           additionalContext =
             (case additionalContext new of None \<Rightarrow> additionalContext old' | Some v \<Rightarrow> Some v) \<rparr>)"

text \<open>The steps of the handler between reading the settings and saving them, in order.\<close>

definition apply_base :: "partial_update_args \<Rightarrow> user_settings \<Rightarrow> user_settings" where
  "apply_base args s =
     (let s1 = (case u_searchProvider args of None \<Rightarrow> s | Some v \<Rightarrow> s \<lparr> searchProvider := v \<rparr>);
          s2 = (case u_searchIncludeSourcesByDefault args of
                  None \<Rightarrow> s1 | Some v \<Rightarrow> s1 \<lparr> searchIncludeSourcesByDefault := v \<rparr>);
          s3 = (case u_titleGenerationModel args of
                  None \<Rightarrow> s2 | Some v \<Rightarrow> s2 \<lparr> titleGenerationModel := v \<rparr>)
      in case u_customization args of
           None \<Rightarrow> s3
         | Some c \<Rightarrow> s3 \<lparr> customization := Some (merge_customization (customization s3) c) \<rparr>)"

definition apply_providers ::
  "(string \<Rightarrow> string) \<Rightarrow> partial_update_args \<Rightarrow> user_settings \<Rightarrow> user_settings" where
  "apply_providers encryptKey args s =
     (let s1 = (case coreProviderUpdates args of
                  None \<Rightarrow> s
                | Some us \<Rightarrow>
                    s \<lparr> coreAIProviders := patch_core_providers encryptKey us (coreAIProviders s) \<rparr>);
          s2 = (case customProviderUpdates args of
                  None \<Rightarrow> s1
                | Some us \<Rightarrow>
                    s1 \<lparr> customAIProviders :=
                           patch_custom_providers encryptKey us (customAIProviders s1) \<rparr>)
      in case generalProviderUpdates args of
           None \<Rightarrow> s2
         | Some us \<Rightarrow>
             (case generalProviders s2 of
                None \<Rightarrow>
                  s2 \<lparr> generalProviders := Some (patch_general_providers encryptKey False us []) \<rparr>
              | Some g \<Rightarrow>
                  s2 \<lparr> generalProviders := Some (patch_general_providers encryptKey True us g) \<rparr>))"

definition apply_models :: "partial_update_args \<Rightarrow> user_settings \<Rightarrow> user_settings" where
  "apply_models args s =
     (let s1 = (case customModelUpdates args of
                  None \<Rightarrow> s
                | Some us \<Rightarrow> s \<lparr> customModels := patch_custom_models us (customModels s) \<rparr>)
      in case u_mcpServers args of
           None \<Rightarrow> s1
         | Some m \<Rightarrow> s1 \<lparr> mcpServers := Some m \<rparr>)"

definition apply_themes :: "partial_update_args \<Rightarrow> user_settings \<Rightarrow> user_settings" where
  "apply_themes args s =
     (let s1 = (case addTheme args of
                  None \<Rightarrow> s
                | Some url \<Rightarrow>
                    if url \<noteq> [] then
                      (let existingThemes = themes_of s
                       in if url \<notin> set existingThemes \<and> length existingThemes < 5
                          then s \<lparr> customThemes := Some (existingThemes @ [url]) \<rparr>
                          else s)
                    else s)
      in case removeTheme args of
           None \<Rightarrow> s1
         | Some url \<Rightarrow>
             if url \<noteq> [] then s1 \<lparr> customThemes := Some (filter (\<lambda>t. t \<noteq> url) (themes_of s1)) \<rparr>
             else s1)"

definition updateUserSettingsPartial ::
  "(string \<Rightarrow> string) \<Rightarrow> identity \<Rightarrow> partial_update_args \<Rightarrow> db \<Rightarrow> error option \<times> db" where
  "updateUserSettingsPartial encryptKey user args db =
     (case user of
        NoIdentity \<Rightarrow> (Some (ChatError ''unauthorized:api''), db)
      | Identity uid \<Rightarrow>
          (let st = getSettings db uid
           in save db (fst st)
                (apply_themes args
                   (apply_models args
                      (apply_providers encryptKey args (apply_base args (snd st)))))))"

section \<open>Provider factory\<close>

text \<open>
  \<^verbatim>\<open>trim\<close> works on UTF-16 code units, so the key is a list of code units here. The
  clients come from vendor SDKs outside the sources: a client is the record of the
  factory called and the options passed to it. \<open>env\<close> is \<^verbatim>\<open>process.env\<close>.
\<close>

type_synonym js_string = "nat list"

definition js_str :: "string \<Rightarrow> js_string" where
  "js_str s = map of_char s"

text \<open>WhiteSpace and LineTerminator code points of ECMAScript, which \<^verbatim>\<open>trim\<close> strips.\<close>

definition white_space :: "nat \<Rightarrow> bool" where
  "white_space c =
     (c = 9 \<or> c = 10 \<or> c = 11 \<or> c = 12 \<or> c = 13 \<or> c = 32 \<or> c = 160 \<or> c = 5760
      \<or> (8192 \<le> c \<and> c \<le> 8202) \<or> c = 8232 \<or> c = 8233 \<or> c = 8239 \<or> c = 8287
      \<or> c = 12288 \<or> c = 65279)"

definition trim :: "js_string \<Rightarrow> js_string" where
  "trim s = rev (dropWhile white_space (rev (dropWhile white_space s)))"

datatype provider_client =
    OpenAI "js_string option" string
  | Anthropic "js_string option"
  | GoogleGenerativeAI "js_string option"
  | Groq "js_string option"
  | OpenRouter js_string
  | Fal "js_string option"

text \<open>
  The type of \<^verbatim>\<open>providerId\<close> is \<^verbatim>\<open>CoreProvider | "openrouter" | "fal"\<close>: the closed
  provider set.
\<close>

definition CoreProviders :: "string list" where
  "CoreProviders = [''openai'', ''anthropic'', ''google'', ''groq'', ''fal'']"

definition provider_ids :: "string list" where
  "provider_ids = CoreProviders @ [''openrouter'', ''fal'']"

definition internal_or ::
  "(string \<Rightarrow> js_string option) \<Rightarrow> string \<Rightarrow> js_string \<Rightarrow> js_string option" where
  "internal_or env var apiKey = (if apiKey = js_str ''internal'' then env var else Some apiKey)"

definition createProvider ::
  "(string \<Rightarrow> js_string option) \<Rightarrow> string \<Rightarrow> js_string \<Rightarrow> error + provider_client" where
  "createProvider env pid apiKey =
     (if apiKey \<noteq> js_str ''internal'' \<and> (apiKey = [] \<or> trim apiKey = [])
      then Inl (Error ''API key is required for non-internal providers'')
      else if pid = ''openai''
        then Inr (OpenAI (internal_or env ''OPENAI_API_KEY'' apiKey) ''strict'')
      else if pid = ''anthropic''
        then Inr (Anthropic (internal_or env ''ANTHROPIC_API_KEY'' apiKey))
      else if pid = ''google''
        then Inr (GoogleGenerativeAI (internal_or env ''GOOGLE_API_KEY'' apiKey))
      else if pid = ''groq''
        then Inr (Groq (internal_or env ''GROQ_API_KEY'' apiKey))
      else if pid = ''openrouter''
        then Inr (OpenRouter apiKey)
      else if pid = ''fal''
        then Inr (Fal (internal_or env ''FAL_API_KEY'' apiKey))
      else Inl (Error (''Unknown provider: '' @ pid)))"

section \<open>Notions used by the theorems\<close>

text \<open>A blank key: empty, or white space only.\<close>

definition blank :: "js_string \<Rightarrow> bool" where
  "blank s = list_all white_space s"

text \<open>
  The provider ids that have an enabled credential, core or custom, and the ciphertexts of
  those credentials.
\<close>

definition enabled_provider_ids :: "user_settings \<Rightarrow> string list" where
  "enabled_provider_ids st =
     map fst (filter (\<lambda>e. enabled (snd e)) (coreAIProviders st))
     @ map fst (filter (\<lambda>e. enabled (snd e)) (customAIProviders st))"

definition enabled_ciphertexts :: "user_settings \<Rightarrow> string list" where
  "enabled_ciphertexts st =
     map (\<lambda>e. encryptedKey (snd e)) (filter (\<lambda>e. enabled (snd e)) (coreAIProviders st))
     @ map (\<lambda>e. encryptedKey (snd e)) (filter (\<lambda>e. enabled (snd e)) (customAIProviders st))"

text \<open>
  The argument validator of the full update admits only the five general provider ids as
  keys of \<^verbatim>\<open>generalProviders\<close>; the partial update takes any string.
\<close>

definition general_keys_ok :: "general_key_update obj option \<Rightarrow> bool" where
  "general_keys_ok gs =
     (case gs of None \<Rightarrow> True
      | Some us \<Rightarrow> list_all (\<lambda>k. k \<in> set general_provider_ids) (map fst us))"

text \<open>A partial update that passes no field.\<close>

definition no_updates :: partial_update_args where
  "no_updates =
     \<lparr> u_searchProvider = None, u_searchIncludeSourcesByDefault = None,
       u_titleGenerationModel = None, u_customization = None,
       coreProviderUpdates = None, customProviderUpdates = None,
       generalProviderUpdates = None, customModelUpdates = None,
       u_mcpServers = None, addTheme = None, removeTheme = None \<rparr>"

section \<open>Example inputs\<close>

text \<open>A table with one user, who has stored five themes.\<close>

definition five_themes_db :: db where
  "five_themes_db =
     [ (DefaultSettings ''alice'')
         \<lparr> customThemes := Some [''t1'', ''t2'', ''t3'', ''t4'', ''t5''] \<rparr> ]"

text \<open>
  A stand-in for the key management collaborator: a ciphertext is the plaintext behind a
  prefix, and decrypting anything else throws. \<open>other_decryptKey\<close> also refuses one
  ciphertext that \<open>example_decryptKey\<close> accepts.
\<close>

definition example_encryptKey :: "string \<Rightarrow> string" where
  "example_encryptKey k = ''enc:'' @ k"

definition example_decryptKey :: "string \<Rightarrow> error + string" where
  "example_decryptKey c = (if take 4 c = ''enc:'' then Inr (drop 4 c) else Inl DecryptionFailure)"

definition other_decryptKey :: "string \<Rightarrow> error + string" where
  "other_decryptKey c =
     (if c = ''enc:sk-old'' then Inl DecryptionFailure else example_decryptKey c)"

text \<open>
  A user with a disabled OpenAI credential that still holds a key, an enabled Google
  credential, an enabled custom provider, and three custom models: a new one, one under
  the key of a catalog model, and a disabled one.
\<close>

definition registry_db :: db where
  "registry_db =
     [ (DefaultSettings ''alice'')
         \<lparr> customModels :=
             [ (''my-model'',
                 \<lparr> enabled = True, cm_name = None, modelId = ''llama-x'', providerId = ''my-llm'',
                   cm_contextLength = 8192, cm_maxTokens = 1024, cm_abilities = [vision] \<rparr>),
               (''gpt-4o'',
                 \<lparr> enabled = True, cm_name = Some ''My 4o'', modelId = ''gpt-4o-proxy'',
                   providerId = ''my-llm'', cm_contextLength = 128000, cm_maxTokens = 4096,
                   cm_abilities = [] \<rparr>),
               (''off-model'',
                 \<lparr> enabled = False, cm_name = None, modelId = ''old'', providerId = ''my-llm'',
                   cm_contextLength = 1, cm_maxTokens = 1, cm_abilities = [] \<rparr>) ],
           coreAIProviders :=
             [ (''openai'', \<lparr> enabled = False, encryptedKey = ''enc:sk-old'' \<rparr>),
               (''google'', \<lparr> enabled = True, encryptedKey = ''enc:g-key'' \<rparr>) ],
           customAIProviders :=
             [ (''my-llm'',
                 \<lparr> enabled = True, encryptedKey = ''enc:ck'',
                   endpoint = ''https://llm.example/v1'', name = ''My LLM'' \<rparr>) ] \<rparr> ]"

text \<open>
  A user whose only credential is disabled, still holds a key, and is stored under an
  internal-prefixed id.
\<close>

definition internal_id_db :: db where
  "internal_id_db =
     [ (DefaultSettings ''alice'')
         \<lparr> coreAIProviders :=
             [ (''i3-openai'', \<lparr> enabled = False, encryptedKey = ''enc:sk-old'' \<rparr>) ] \<rparr> ]"

text \<open>A user whose stored ciphertexts cannot be decrypted.\<close>

definition broken_key_db :: db where
  "broken_key_db =
     [ (DefaultSettings ''alice'')
         \<lparr> coreAIProviders :=
             [ (''openai'', \<lparr> enabled = True, encryptedKey = ''not-a-ciphertext'' \<rparr>) ],
           generalProviders :=
             Some [ (''supermemory'',
                      \<lparr> enabled = True, encryptedKey = ''not-a-ciphertext'', country = None,
                        searchLang = None, safesearch = None, language = None \<rparr>) ] \<rparr> ]"

text \<open>
  Full updates for the user of \<open>registry_db\<close>: one that keeps the OpenAI and custom keys
  and replaces the Google key, one that passes an empty \<^verbatim>\<open>newKey\<close>, one that names a
  custom provider that is not stored, one whose custom provider id is a property of
  \<^verbatim>\<open>Object.prototype\<close>, one that names a core provider that is not stored.
\<close>

definition alice_base :: base_settings where
  "alice_base =
     \<lparr> userId = ''alice'', searchProvider = ''firecrawl'', searchIncludeSourcesByDefault = False,
       customModels = [], titleGenerationModel = ''gemini-2.0-flash-lite'', customThemes = None,
       mcpServers = None, customization = None, onboardingCompleted = None \<rparr>"

definition full_request :: "key_update obj \<Rightarrow> custom_key_update obj \<Rightarrow> full_update_args" where
  "full_request core custom =
     \<lparr> a_userId = ''alice'', baseSettings = alice_base, coreProviders = core,
       customProviders = custom, a_generalProviders = None, a_supermemory = None,
       a_mcpServers = None \<rparr>"

definition keep_request :: full_update_args where
  "keep_request =
     full_request
       [ (''openai'', \<lparr> enabled = True, newKey = None \<rparr>),
         (''google'', \<lparr> enabled = True, newKey = Some ''g-new'' \<rparr>) ]
       [ (''my-llm'', \<lparr> enabled = True, newKey = None, new_name = ''My LLM'',
                        new_endpoint = ''https://llm.example/v1'' \<rparr>) ]"

definition empty_key_request :: full_update_args where
  "empty_key_request = full_request [ (''openai'', \<lparr> enabled = True, newKey = Some [] \<rparr>) ] []"

definition missing_custom_request :: full_update_args where
  "missing_custom_request =
     full_request []
       [ (''new-llm'', \<lparr> enabled = True, newKey = None, new_name = ''New LLM'',
                         new_endpoint = ''https://new.example/v1'' \<rparr>) ]"

definition inherited_name_request :: full_update_args where
  "inherited_name_request =
     full_request []
       [ (''toString'', \<lparr> enabled = True, newKey = None, new_name = ''New LLM'',
                          new_endpoint = ''https://new.example/v1'' \<rparr>) ]"

definition missing_core_request :: full_update_args where
  "missing_core_request = full_request [ (''anthropic'', \<lparr> enabled = True, newKey = None \<rparr>) ] []"

text \<open>A partial update that deletes a custom provider and a custom model.\<close>

definition delete_request :: partial_update_args where
  "delete_request =
     no_updates \<lparr> customProviderUpdates := Some [ (''my-llm'', None) ],
                  customModelUpdates := Some [ (''my-model'', None) ] \<rparr>"


section \<open>Facts about the table\<close>

lemma first_byUser_Some:
  "first_byUser db uid = Some i \<Longrightarrow> i < length db \<and> userId (db ! i) = uid"
proof (induction db arbitrary: i)
  case Nil
  then show ?case by simp
next
  case (Cons d ds)
  show ?case
  proof (cases "userId d = uid")
    case True
    with Cons.prems show ?thesis by simp
  next
    case False
    with Cons.prems obtain j where j: "first_byUser ds uid = Some j" "i = Suc j"
      by auto
    with Cons.IH[of j] show ?thesis by simp
  qed
qed

lemma first_byUser_update:
  "first_byUser db uid = Some i \<Longrightarrow> userId d = uid \<Longrightarrow> first_byUser (db[i := d]) uid = Some i"
proof (induction db arbitrary: i)
  case Nil
  then show ?case by simp
next
  case (Cons e es)
  show ?case
  proof (cases "userId e = uid")
    case True
    with Cons.prems show ?thesis by simp
  next
    case False
    with Cons.prems obtain j where j: "first_byUser es uid = Some j" "i = Suc j"
      by auto
    with Cons.IH[of j] Cons.prems(2) False show ?thesis by simp
  qed
qed

lemma first_byUser_append:
  "first_byUser db uid = None \<Longrightarrow> userId d = uid \<Longrightarrow>
   first_byUser (db @ [d]) uid = Some (length db)"
  by (induction db) (auto split: if_splits)

lemma getSettings_userId: "userId (snd (getSettings db uid)) = uid"
  by (auto simp: getSettings_def DefaultSettings_def first_byUser_Some split: option.splits)

lemma case_option_id: "(case x of None \<Rightarrow> x | Some t \<Rightarrow> Some t) = x"
  by (cases x) simp_all

lemma patch_doc_same: "patch_doc d d = d"
  by (simp add: patch_doc_def case_option_id)

section \<open>Authorization of the updates\<close>

text \<open>
  C10. The full update throws \<^verbatim>\<open>unauthorized:api\<close> and leaves the table as it was
  whenever the caller has no identity or an identity other than the \<^verbatim>\<open>userId\<close>
  argument; the partial update does the same for a caller with no identity.
\<close>

theorem updates_reject_unauthorized:
  "((user = NoIdentity \<or> (\<exists>uid. user = Identity uid \<and> uid \<noteq> a_userId args))
      \<longrightarrow> updateUserSettings encryptKey user args db = (Some (ChatError ''unauthorized:api''), db))
   \<and> updateUserSettingsPartial encryptKey NoIdentity pargs db
       = (Some (ChatError ''unauthorized:api''), db)"
  by (auto simp: updateUserSettings_def updateUserSettingsPartial_def)

theorem updates_reject_unauthorized_witness:
  "updateUserSettings example_encryptKey (Identity ''mallory'') keep_request registry_db
     = (Some (ChatError ''unauthorized:api''), registry_db)
   \<and> updateUserSettings example_encryptKey NoIdentity keep_request registry_db
     = (Some (ChatError ''unauthorized:api''), registry_db)
   \<and> updateUserSettingsPartial example_encryptKey NoIdentity
       (no_updates\<lparr>addTheme := Some ''t1''\<rparr>) registry_db
     = (Some (ChatError ''unauthorized:api''), registry_db)"
  using updates_reject_unauthorized[where user = "Identity ''mallory''" and args = keep_request
      and db = registry_db and encryptKey = example_encryptKey
      and pargs = "no_updates\<lparr>addTheme := Some ''t1''\<rparr>"]
    updates_reject_unauthorized[where user = NoIdentity and args = keep_request
      and db = registry_db and encryptKey = example_encryptKey
      and pargs = "no_updates\<lparr>addTheme := Some ''t1''\<rparr>"]
  by (simp add: keep_request_def full_request_def)

section \<open>Provider factory\<close>

lemma dropWhile_all: "(\<forall>x\<in>set (dropWhile P xs). P x) \<longleftrightarrow> (\<forall>x\<in>set xs. P x)"
  by (induction xs) auto

lemma trim_Nil_iff: "trim s = [] \<longleftrightarrow> list_all white_space s"
  by (simp add: trim_def dropWhile_eq_Nil_conv dropWhile_all list_all_iff)

lemma required_iff:
  "(apiKey \<noteq> js_str ''internal'' \<and> (apiKey = [] \<or> trim apiKey = []))
     \<longleftrightarrow> (apiKey \<noteq> js_str ''internal'' \<and> blank apiKey)"
  by (auto simp: trim_Nil_iff blank_def)

lemma internal_not_blank: "\<not> blank (js_str ''internal'')"
  by (simp add: blank_def js_str_def white_space_def)

text \<open>
  C9, as the code has it. For a provider id of the closed set, \<^verbatim>\<open>createProvider\<close>
  throws the "API key is required" error exactly when the key is not the sentinel
  \<^verbatim>\<open>"internal"\<close> and is blank, and returns a client otherwise; with the sentinel it
  returns a client whatever the environment holds. For an id outside the set it always
  throws: the key check comes first, so a blank key gives the "API key is required"
  error and any other key the "Unknown provider" error.
\<close>

theorem createProvider_cases:
  "(pid \<in> set provider_ids \<longrightarrow>
      (createProvider env pid apiKey = Inl (Error ''API key is required for non-internal providers'')
         \<longleftrightarrow> apiKey \<noteq> js_str ''internal'' \<and> blank apiKey)
    \<and> ((\<exists>client. createProvider env pid apiKey = Inr client)
         \<longleftrightarrow> \<not> (apiKey \<noteq> js_str ''internal'' \<and> blank apiKey))
    \<and> (\<exists>client. createProvider env pid (js_str ''internal'') = Inr client))
   \<and> (pid \<notin> set provider_ids \<longrightarrow>
        createProvider env pid apiKey =
          (if apiKey \<noteq> js_str ''internal'' \<and> blank apiKey
           then Inl (Error ''API key is required for non-internal providers'')
           else Inl (Error (''Unknown provider: '' @ pid))))"
  unfolding createProvider_def required_iff
  by (auto simp: provider_ids_def CoreProviders_def internal_not_blank)

theorem createProvider_cases_witness:
  "createProvider (\<lambda>v. None) ''anthropic'' [32, 9, 160]
     = Inl (Error ''API key is required for non-internal providers'')
   \<and> (\<exists>client. createProvider (\<lambda>v. None) ''anthropic'' (js_str ''internal'') = Inr client)
   \<and> createProvider (\<lambda>v. None) ''mistral'' (js_str ''sk-1'')
       = Inl (Error ''Unknown provider: mistral'')
   \<and> createProvider (\<lambda>v. None) ''mistral'' []
       = Inl (Error ''API key is required for non-internal providers'')"
  using createProvider_cases [where pid = "''anthropic''" and env = "\<lambda>v. None"
      and apiKey = "[32, 9, 160]"]
    createProvider_cases [where pid = "''mistral''" and env = "\<lambda>v. None"
      and apiKey = "js_str ''sk-1''"]
    createProvider_cases [where pid = "''mistral''" and env = "\<lambda>v. None"
      and apiKey = "[]"]
  by (simp add: provider_ids_def CoreProviders_def blank_def white_space_def js_str_def)

text \<open>
  The wording of the specification fails for an unknown provider id with an empty key:
  the error is not the "Unknown provider" one.
\<close>

theorem createProvider_unknown_blank_counterexample:
  "createProvider (\<lambda>v. None) ''mistral'' [] \<noteq> Inl (Error (''Unknown provider: '' @ ''mistral''))"
  by (simp add: createProvider_def js_str_def)

section \<open>Themes\<close>

lemma apply_base_themes: "customThemes (apply_base args s) = customThemes s"
  by (simp add: apply_base_def Let_def split: option.splits)

lemma apply_providers_themes: "customThemes (apply_providers e args s) = customThemes s"
  by (simp add: apply_providers_def Let_def split: option.splits)

lemma apply_models_themes: "customThemes (apply_models args s) = customThemes s"
  by (simp add: apply_models_def Let_def split: option.splits)

lemma themes_of_steps:
  "themes_of (apply_models args (apply_providers e args (apply_base args s))) = themes_of s"
  by (simp add: themes_of_def apply_models_themes apply_providers_themes apply_base_themes)

lemma apply_base_addTheme: "apply_base (args\<lparr>addTheme := a\<rparr>) s = apply_base args s"
  by (simp add: apply_base_def)

lemma apply_providers_addTheme:
  "apply_providers e (args\<lparr>addTheme := a\<rparr>) s = apply_providers e args s"
  by (simp add: apply_providers_def)

lemma apply_models_addTheme: "apply_models (args\<lparr>addTheme := a\<rparr>) s = apply_models args s"
  by (simp add: apply_models_def)

lemma apply_themes_noop:
  "url \<in> set (themes_of s) \<or> 5 \<le> length (themes_of s) \<Longrightarrow>
   apply_themes (args\<lparr>addTheme := Some url\<rparr>) s = apply_themes (args\<lparr>addTheme := None\<rparr>) s"
  by (auto simp: apply_themes_def Let_def split: option.splits)

lemma partial_addTheme_noop:
  assumes "url \<in> set (themes_of (snd (getSettings db uid)))
           \<or> 5 \<le> length (themes_of (snd (getSettings db uid)))"
  shows "updateUserSettingsPartial e (Identity uid) (args\<lparr>addTheme := Some url\<rparr>) db
           = updateUserSettingsPartial e (Identity uid) (args\<lparr>addTheme := None\<rparr>) db"
proof -
  let ?s = "apply_models args (apply_providers e args (apply_base args (snd (getSettings db uid))))"
  have "url \<in> set (themes_of ?s) \<or> 5 \<le> length (themes_of ?s)"
    using assms by (simp add: themes_of_steps)
  then have "apply_themes (args\<lparr>addTheme := Some url\<rparr>) ?s
             = apply_themes (args\<lparr>addTheme := None\<rparr>) ?s"
    by (rule apply_themes_noop)
  then show ?thesis
    by (simp add: updateUserSettingsPartial_def Let_def apply_base_addTheme
        apply_providers_addTheme apply_models_addTheme)
qed

lemma no_updates_identity:
  "apply_themes no_updates
     (apply_models no_updates (apply_providers e no_updates (apply_base no_updates s))) = s"
  by (simp add: apply_themes_def apply_models_def apply_providers_def apply_base_def
      no_updates_def)

lemma default_themes: "themes_of (DefaultSettings uid) = []"
  by (simp add: themes_of_def DefaultSettings_def)

lemma stored_when_themes:
  assumes "url \<in> set (themes_of (snd (getSettings db uid)))
           \<or> 5 \<le> length (themes_of (snd (getSettings db uid)))"
  shows "\<exists>i. getSettings db uid = (Some i, db ! i) \<and> i < length db"
proof (cases "first_byUser db uid")
  case None
  then have "snd (getSettings db uid) = DefaultSettings uid"
    by (simp add: getSettings_def)
  with assms show ?thesis by (simp add: default_themes)
next
  case (Some i)
  then show ?thesis using first_byUser_Some[OF Some] by (simp add: getSettings_def)
qed

lemma partial_only_addTheme:
  assumes "url \<in> set (themes_of (snd (getSettings db uid)))
           \<or> 5 \<le> length (themes_of (snd (getSettings db uid)))"
    and "list_all schema_ok db"
  shows "updateUserSettingsPartial e (Identity uid) (no_updates\<lparr>addTheme := Some url\<rparr>) db
           = (None, db)"
proof -
  obtain i where i: "getSettings db uid = (Some i, db ! i)" "i < length db"
    using stored_when_themes[OF assms(1)] by blast
  have ok: "schema_ok (db ! i)"
    using assms(2) i(2) by (simp add: list_all_length)
  have "updateUserSettingsPartial e (Identity uid) (no_updates\<lparr>addTheme := Some url\<rparr>) db
        = updateUserSettingsPartial e (Identity uid) (no_updates\<lparr>addTheme := None\<rparr>) db"
    by (rule partial_addTheme_noop[OF assms(1)])
  also have "no_updates\<lparr>addTheme := None\<rparr> = no_updates"
    by (simp add: no_updates_def)
  also have "updateUserSettingsPartial e (Identity uid) no_updates db = (None, db)"
    using i ok
    by (simp add: updateUserSettingsPartial_def no_updates_identity save_def db_patch_def
        patch_doc_same)
  finally show ?thesis .
qed

text \<open>
  C1, as the code has it, for the stored theme list of the caller.
  Adding a URL that is in the list: \<^verbatim>\<open>addUserTheme\<close> returns without writing, and a
  partial update with that \<^verbatim>\<open>addTheme\<close> does what the same request without it does.
  Adding a new URL to a list of five or more: \<^verbatim>\<open>addUserTheme\<close> throws "Maximum number
  of themes reached" and writes nothing; the partial update again does what the same
  request without \<^verbatim>\<open>addTheme\<close> does, and a request with nothing but \<^verbatim>\<open>addTheme\<close>
  succeeds and leaves a valid table as it was.
\<close>

theorem addTheme_cap_and_duplicate:
  "(url \<in> set (themes_of (snd (getSettings db uid))) \<longrightarrow>
      addUserTheme (Identity uid) url db = (None, db))
   \<and> (url \<notin> set (themes_of (snd (getSettings db uid)))
        \<and> 5 \<le> length (themes_of (snd (getSettings db uid))) \<longrightarrow>
      addUserTheme (Identity uid) url db
        = (Some (Error ''Maximum number of themes reached''), db))
   \<and> (url \<in> set (themes_of (snd (getSettings db uid)))
        \<or> 5 \<le> length (themes_of (snd (getSettings db uid))) \<longrightarrow>
      updateUserSettingsPartial encryptKey (Identity uid) (args\<lparr>addTheme := Some url\<rparr>) db
        = updateUserSettingsPartial encryptKey (Identity uid) (args\<lparr>addTheme := None\<rparr>) db
      \<and> (list_all schema_ok db \<longrightarrow>
           updateUserSettingsPartial encryptKey (Identity uid)
             (no_updates\<lparr>addTheme := Some url\<rparr>) db = (None, db)))"
proof (intro conjI impI)
  assume "url \<in> set (themes_of (snd (getSettings db uid)))"
  then show "addUserTheme (Identity uid) url db = (None, db)"
    by (simp add: addUserTheme_def Let_def)
next
  assume "url \<notin> set (themes_of (snd (getSettings db uid)))
        \<and> 5 \<le> length (themes_of (snd (getSettings db uid)))"
  then show "addUserTheme (Identity uid) url db
        = (Some (Error ''Maximum number of themes reached''), db)"
    by (simp add: addUserTheme_def Let_def)
next
  assume "url \<in> set (themes_of (snd (getSettings db uid)))
        \<or> 5 \<le> length (themes_of (snd (getSettings db uid)))"
  then show "updateUserSettingsPartial encryptKey (Identity uid) (args\<lparr>addTheme := Some url\<rparr>) db
        = updateUserSettingsPartial encryptKey (Identity uid) (args\<lparr>addTheme := None\<rparr>) db"
    by (rule partial_addTheme_noop)
next
  assume "url \<in> set (themes_of (snd (getSettings db uid)))
        \<or> 5 \<le> length (themes_of (snd (getSettings db uid)))"
    and "list_all schema_ok db"
  then show "updateUserSettingsPartial encryptKey (Identity uid)
             (no_updates\<lparr>addTheme := Some url\<rparr>) db = (None, db)"
    by (rule partial_only_addTheme)
qed

lemma five_themes: "themes_of (snd (getSettings five_themes_db ''alice''))
                      = [''t1'', ''t2'', ''t3'', ''t4'', ''t5'']"
  by (simp add: five_themes_db_def getSettings_def themes_of_def DefaultSettings_def)

lemma five_themes_valid: "list_all schema_ok five_themes_db"
  by (simp add: five_themes_db_def schema_ok_def DefaultSettings_def)

theorem addTheme_cap_and_duplicate_witness:
  "addUserTheme (Identity ''alice'') ''t3'' five_themes_db = (None, five_themes_db)
   \<and> addUserTheme (Identity ''alice'') ''t6'' five_themes_db
       = (Some (Error ''Maximum number of themes reached''), five_themes_db)
   \<and> updateUserSettingsPartial (\<lambda>k. k) (Identity ''alice'')
       (no_updates\<lparr>addTheme := Some ''t6''\<rparr>) five_themes_db = (None, five_themes_db)"
proof -
  have dup: "''t3'' \<in> set (themes_of (snd (getSettings five_themes_db ''alice'')))"
    by (simp add: five_themes)
  have cap: "''t6'' \<notin> set (themes_of (snd (getSettings five_themes_db ''alice'')))
             \<and> 5 \<le> length (themes_of (snd (getSettings five_themes_db ''alice'')))"
    by (simp add: five_themes)
  from dup addTheme_cap_and_duplicate [where db = five_themes_db and uid = "''alice''"
      and url = "''t3''" and encryptKey = "\<lambda>k. k" and args = no_updates]
  have 1: "addUserTheme (Identity ''alice'') ''t3'' five_themes_db = (None, five_themes_db)"
    by blast
  from cap five_themes_valid
    addTheme_cap_and_duplicate [where db = five_themes_db and uid = "''alice''"
      and url = "''t6''" and encryptKey = "\<lambda>k. k" and args = no_updates]
  have 2: "addUserTheme (Identity ''alice'') ''t6'' five_themes_db
             = (Some (Error ''Maximum number of themes reached''), five_themes_db)"
    and 3: "updateUserSettingsPartial (\<lambda>k. k) (Identity ''alice'')
              (no_updates\<lparr>addTheme := Some ''t6''\<rparr>) five_themes_db = (None, five_themes_db)"
    by blast+
  from 1 2 3 show ?thesis by blast
qed

text \<open>
  The wording of the specification fails for the dedicated mutation: a sixth theme is
  answered with an error, not silently.
\<close>

theorem addUserTheme_sixth_counterexample:
  "fst (addUserTheme (Identity ''alice'') ''t6'' five_themes_db)
     = Some (Error ''Maximum number of themes reached'')"
  by (simp add: addUserTheme_def Let_def five_themes)

section \<open>Registry resolver\<close>

subsection \<open>The providers map and the adapters of a catalog model\<close>

lemma available_adapters_loop_filter:
  "available_adapters_loop ps ads acc =
     acc @ filter (\<lambda>a. js_in (split_colon_first a) ps \<or> startsWith (split_colon_first a) ''i3-'') ads"
  by (induction ads arbitrary: acc) (simp_all add: Let_def)

lemma core_providers_keys:
  "registry_core_providers dec xs ps = Inr ps' \<Longrightarrow>
   fst ` set ps' = fst ` set ps \<union> fst ` set (filter (\<lambda>e. enabled (snd e)) xs)"
proof (induction xs arbitrary: ps)
  case Nil
  then show ?case by simp
next
  case (Cons x xs)
  obtain pid p where x: "x = (pid, p)" by (cases x)
  show ?case
  proof (cases "enabled p")
    case False
    with Cons x show ?thesis by simp
  next
    case True
    with Cons.prems x obtain k where k: "dec (encryptedKey p) = Inr k"
      by (auto split: sum.splits)
    with Cons.prems x True
    have "registry_core_providers dec xs
            (AList.update pid \<lparr>key = k, p_endpoint = None, p_name = Some pid\<rparr> ps) = Inr ps'"
      by simp
    from Cons.IH[OF this] x True show ?thesis
      by (auto simp add: dom_update)
  qed
qed

lemma custom_providers_keys:
  "registry_custom_providers dec xs ps = Inr ps' \<Longrightarrow>
   fst ` set ps' = fst ` set ps \<union> fst ` set (filter (\<lambda>e. enabled (snd e)) xs)"
proof (induction xs arbitrary: ps)
  case Nil
  then show ?case by simp
next
  case (Cons x xs)
  obtain pid p where x: "x = (pid, p)" by (cases x)
  show ?case
  proof (cases "enabled p")
    case False
    with Cons x show ?thesis by simp
  next
    case True
    with Cons.prems x obtain k where k: "dec (encryptedKey p) = Inr k"
      by (auto split: sum.splits)
    with Cons.prems x True
    have "registry_custom_providers dec xs
            (AList.update pid \<lparr>key = k, p_endpoint = Some (endpoint p), p_name = Some (name p)\<rparr> ps) = Inr ps'"
      by simp
    from Cons.IH[OF this] x True show ?thesis
      by (auto simp add: dom_update)
  qed
qed

lemma registry_providers_keys:
  assumes "getUserRegistryInternal dec db uid = Inr reg"
  shows "fst ` set (providers reg) = set (enabled_provider_ids (snd (getSettings db uid)))"
proof -
  let ?st = "snd (getSettings db uid)"
  from assms obtain ps1 where
    ps1: "registry_core_providers dec (coreAIProviders ?st) [] = Inr ps1"
    and ps: "registry_custom_providers dec (customAIProviders ?st) ps1 = Inr (providers reg)"
    by (auto simp: getUserRegistryInternal_def Let_def split: sum.splits)
  from core_providers_keys[OF ps1] custom_providers_keys[OF ps]
  show ?thesis by (simp add: enabled_provider_ids_def image_Un)
qed

lemma js_get_own_iff: "(\<exists>v. js_get ob k = Own v) \<longleftrightarrow> k \<in> fst ` set ob"
proof -
  have "k \<in> fst ` set ob \<longleftrightarrow> map_of ob k \<noteq> None"
    by (simp add: map_of_eq_None_iff)
  then show ?thesis
    by (auto simp: js_get_def split: option.splits)
qed

lemma js_in_own:
  "k \<notin> set Object_prototype_keys \<Longrightarrow> js_in k ob \<longleftrightarrow> k \<in> fst ` set ob"
  using js_get_own_iff[of ob k]
  by (auto simp: js_in_def js_get_def split: option.splits lookup.splits)

lemma available_adapters_own:
  assumes "list_all (\<lambda>a. \<not> (split_colon_first a) \<in> set Object_prototype_keys) (adapters model)"
  shows "available_adapters ps model
           = filter (\<lambda>a. split_colon_first a \<in> fst ` set ps
                          \<or> startsWith (split_colon_first a) ''i3-'') (adapters model)"
proof -
  have "filter (\<lambda>a. js_in (split_colon_first a) ps \<or> startsWith (split_colon_first a) ''i3-'')
          (adapters model)
        = filter (\<lambda>a. split_colon_first a \<in> fst ` set ps
                       \<or> startsWith (split_colon_first a) ''i3-'') (adapters model)"
    using assms by (intro filter_cong refl) (auto simp: list_all_iff js_in_own)
  then show ?thesis
    by (simp add: available_adapters_def available_adapters_loop_filter)
qed

text \<open>No adapter of the catalog names a property of \<^verbatim>\<open>Object.prototype\<close> as its provider.\<close>

lemma catalog_not_inherited:
  "list_all (\<lambda>m. list_all (\<lambda>a. \<not> (split_colon_first a) \<in> set Object_prototype_keys) (adapters m)) MODELS_SHARED"
  by (simp add: MODELS_SHARED_def base_model_def Object_prototype_keys_def split_colon_first_def)

lemma catalog_model_not_inherited:
  "model \<in> set MODELS_SHARED \<Longrightarrow>
   list_all (\<lambda>a. \<not> (split_colon_first a) \<in> set Object_prototype_keys) (adapters model)"
  using catalog_not_inherited by (simp add: list_all_iff)

lemma catalog_length: "length MODELS_SHARED = 23"
  by (simp add: MODELS_SHARED_def)

lemma catalog_ids_distinct: "distinct (map m_id MODELS_SHARED)"
  by (simp add: MODELS_SHARED_def base_model_def)

subsection \<open>The loops that build the models map\<close>

lemma catalog_models_other:
  "k \<notin> m_id ` set cat \<Longrightarrow> map_of (registry_catalog_models ps cat ms) k = map_of ms k"
  by (induction cat arbitrary: ms) (simp_all add: update_conv')

lemma catalog_models_entry:
  "distinct (map m_id cat) \<Longrightarrow> m \<in> set cat \<Longrightarrow>
   map_of (registry_catalog_models ps cat ms) (m_id m) = Some (catalog_entry ps m)"
proof (induction cat arbitrary: ms)
  case Nil
  then show ?case by simp
next
  case (Cons c cat)
  show ?case
  proof (cases "m = c")
    case True
    with Cons.prems have "m_id m \<notin> m_id ` set cat" by auto
    with True show ?thesis by (simp add: catalog_models_other update_conv')
  next
    case False
    with Cons show ?thesis by simp
  qed
qed

lemma catalog_models_keys:
  "fst ` set (registry_catalog_models ps cat ms) = fst ` set ms \<union> m_id ` set cat"
  by (induction cat arbitrary: ms) (auto simp: dom_update)

lemma catalog_models_distinct:
  "distinct (map fst ms) \<Longrightarrow> distinct (map fst (registry_catalog_models ps cat ms))"
  by (induction cat arbitrary: ms) (simp_all add: distinct_update)

lemma custom_models_other:
  "k \<notin> fst ` set (filter (\<lambda>e. enabled (snd e)) cms) \<Longrightarrow>
   map_of (registry_custom_models cms ms) k = map_of ms k"
  by (induction cms arbitrary: ms) (auto simp: update_conv')

lemma custom_models_entry:
  "distinct (map fst cms) \<Longrightarrow> (k, cm) \<in> set cms \<Longrightarrow> enabled cm \<Longrightarrow>
   map_of (registry_custom_models cms ms) k = Some (custom_entry cm)"
proof (induction cms arbitrary: ms)
  case Nil
  then show ?case by simp
next
  case (Cons c cms)
  obtain k' cm' where c: "c = (k', cm')" by (cases c)
  show ?case
  proof (cases "(k, cm) = c")
    case True
    with Cons.prems c have "k \<notin> fst ` set cms" by auto
    then have "k \<notin> fst ` set (filter (\<lambda>e. enabled (snd e)) cms)" by auto
    with True c Cons.prems(3) show ?thesis
      by (simp add: custom_models_other update_conv')
  next
    case False
    with Cons c show ?thesis by auto
  qed
qed

lemma custom_models_keys:
  "fst ` set (registry_custom_models cms ms)
     = fst ` set ms \<union> fst ` set (filter (\<lambda>e. enabled (snd e)) cms)"
proof (induction cms arbitrary: ms)
  case Nil
  then show ?case by simp
next
  case (Cons c cms)
  obtain k cm where c: "c = (k, cm)" by (cases c)
  show ?case
  proof (cases "enabled cm")
    case True
    have "fst ` set (registry_custom_models (c # cms) ms)
            = fst ` set (AList.update k (custom_entry cm) ms)
              \<union> fst ` set (filter (\<lambda>e. enabled (snd e)) cms)"
      using c True Cons.IH by simp
    also have "\<dots> = fst ` set ms \<union> fst ` set (filter (\<lambda>e. enabled (snd e)) (c # cms))"
      using c True by (auto simp add: dom_update)
    finally show ?thesis .
  next
    case False
    with c Cons.IH show ?thesis by simp
  qed
qed

lemma custom_models_distinct:
  "distinct (map fst ms) \<Longrightarrow> distinct (map fst (registry_custom_models cms ms))"
  by (induction cms arbitrary: ms) (auto simp: distinct_update)

subsection \<open>The example user\<close>

lemma registry_db_settings:
  "getSettings registry_db ''alice'' = (Some 0, registry_db ! 0)"
  by (simp add: getSettings_def registry_db_def DefaultSettings_def)

lemma registry_db_returns:
  "\<exists>reg. getUserRegistryInternal example_decryptKey registry_db ''alice'' = Inr reg"
  by (simp add: getUserRegistryInternal_def registry_db_settings Let_def)
     (simp add: registry_db_def example_decryptKey_def)

lemma registry_db_enabled_ids:
  "enabled_provider_ids (snd (getSettings registry_db ''alice'')) = [''google'', ''my-llm'']"
  by (simp add: registry_db_settings) (simp add: registry_db_def enabled_provider_ids_def)

lemma registry_db_customModels:
  "customModels (snd (getSettings registry_db ''alice''))
     = [ (''my-model'',
                 \<lparr> enabled = True, cm_name = None, modelId = ''llama-x'', providerId = ''my-llm'',
                   cm_contextLength = 8192, cm_maxTokens = 1024, cm_abilities = [vision] \<rparr>),
               (''gpt-4o'',
                 \<lparr> enabled = True, cm_name = Some ''My 4o'', modelId = ''gpt-4o-proxy'',
                   providerId = ''my-llm'', cm_contextLength = 128000, cm_maxTokens = 4096,
                   cm_abilities = [] \<rparr>),
               (''off-model'',
                 \<lparr> enabled = False, cm_name = None, modelId = ''old'', providerId = ''my-llm'',
                   cm_contextLength = 1, cm_maxTokens = 1, cm_abilities = [] \<rparr>) ]"
  by (simp add: registry_db_settings) (simp add: registry_db_def)

lemma catalog_3: "adapters (MODELS_SHARED ! 3) = [''openai:gpt-4o'', ''openrouter:openai/gpt-4o'']"
  by (simp add: MODELS_SHARED_def base_model_def)

lemma catalog_5: "m_id (MODELS_SHARED ! 5) = ''gpt-4.1''
   \<and> adapters (MODELS_SHARED ! 5) = [''openai:gpt-4.1'', ''openrouter:openai/gpt-4.1'']"
  by (simp add: MODELS_SHARED_def base_model_def)

lemma catalog_12:
  "adapters (MODELS_SHARED ! 12)
     = [''i3-google:gemini-2.0-flash'', ''google:gemini-2.0-flash'',
        ''openrouter:google/gemini-2.0-flash-001'']"
  by (simp add: MODELS_SHARED_def base_model_def)

lemma off_model_not_catalog: "''off-model'' \<notin> m_id ` set MODELS_SHARED"
  by (simp add: MODELS_SHARED_def base_model_def)

subsection \<open>Available adapters\<close>

text \<open>
  What the resolver returns for a catalog model that no enabled custom model overrides:
  the catalog entry, whose adapters are \<^verbatim>\<open>available_adapters\<close>.
\<close>

lemma registry_models_unfold:
  assumes "getUserRegistryInternal decryptKey db uid = Inr reg"
  shows "models reg
           = registry_custom_models (customModels (snd (getSettings db uid)))
               (registry_catalog_models (providers reg) MODELS_SHARED [])"
  using assms by (auto simp: getUserRegistryInternal_def Let_def split: sum.splits)

lemma registry_catalog_entry:
  assumes "getUserRegistryInternal decryptKey db uid = Inr reg"
    and "model \<in> set MODELS_SHARED"
    and "m_id model \<notin> fst ` set (filter (\<lambda>e. enabled (snd e))
                                       (customModels (snd (getSettings db uid))))"
  shows "map_of (models reg) (m_id model) = Some (catalog_entry (providers reg) model)"
  using assms(2,3)
  by (simp add: registry_models_unfold[OF assms(1)] custom_models_other
      catalog_models_entry[OF catalog_ids_distinct])

lemma registry_available_adapters:
  assumes "getUserRegistryInternal decryptKey db uid = Inr reg"
    and "model \<in> set MODELS_SHARED"
  shows "available_adapters (providers reg) model
           = filter (\<lambda>a. split_colon_first a \<in> set (enabled_provider_ids (snd (getSettings db uid)))
                          \<or> startsWith (split_colon_first a) ''i3-'') (adapters model)"
  by (simp add: available_adapters_own[OF catalog_model_not_inherited[OF assms(2)]]
      registry_providers_keys[OF assms(1)])

text \<open>
  C3, as the code has it. When the resolver returns, the keys of its providers map are
  the ids of the credentials with \<open>enabled = True\<close>, core or custom. For every model of
  the catalog, \<^verbatim>\<open>available_adapters\<close> is the model's adapter list filtered, in order, by
  "the provider segment is a key of the providers map or starts with \<^verbatim>\<open>i3-\<close>", and it
  is the adapter list of the model's entry in the models map returned, unless an enabled
  custom model is stored under the model's id. An adapter whose provider segment is not
  internal-prefixed and has no enabled credential is left out, whatever the
  \<^verbatim>\<open>encryptedKey\<close> of a disabled credential holds; an internal-prefixed adapter is
  kept, also when a disabled credential is stored under its provider segment.
\<close>

theorem available_adapters_in_registry:
  assumes "getUserRegistryInternal decryptKey db uid = Inr reg"
    and "model \<in> set MODELS_SHARED"
  shows "fst ` set (providers reg) = set (enabled_provider_ids (snd (getSettings db uid)))
    \<and> available_adapters (providers reg) model
        = filter (\<lambda>a. split_colon_first a \<in> fst ` set (providers reg)
                       \<or> startsWith (split_colon_first a) ''i3-'') (adapters model)
    \<and> (m_id model \<notin> fst ` set (filter (\<lambda>e. enabled (snd e))
                                       (customModels (snd (getSettings db uid))))
        \<longrightarrow> map_option adapters (map_of (models reg) (m_id model))
              = Some (available_adapters (providers reg) model))
    \<and> (\<forall>a \<in> set (adapters model).
          split_colon_first a \<notin> set (enabled_provider_ids (snd (getSettings db uid)))
          \<and> \<not> startsWith (split_colon_first a) ''i3-''
          \<longrightarrow> a \<notin> set (available_adapters (providers reg) model))
    \<and> (\<forall>a \<in> set (adapters model).
          startsWith (split_colon_first a) ''i3-''
          \<longrightarrow> a \<in> set (available_adapters (providers reg) model))"
proof -
  have keys: "fst ` set (providers reg) = set (enabled_provider_ids (snd (getSettings db uid)))"
    by (rule registry_providers_keys[OF assms(1)])
  have eq: "available_adapters (providers reg) model
        = filter (\<lambda>a. split_colon_first a \<in> fst ` set (providers reg)
                       \<or> startsWith (split_colon_first a) ''i3-'') (adapters model)"
    by (rule available_adapters_own[OF catalog_model_not_inherited[OF assms(2)]])
  have entry: "map_option adapters (map_of (models reg) (m_id model))
                 = Some (available_adapters (providers reg) model)"
    if "m_id model \<notin> fst ` set (filter (\<lambda>e. enabled (snd e))
                                       (customModels (snd (getSettings db uid))))"
    by (simp add: registry_catalog_entry[OF assms that] catalog_entry_def)
  have excl: "\<forall>a \<in> set (adapters model).
          split_colon_first a \<notin> set (enabled_provider_ids (snd (getSettings db uid)))
          \<and> \<not> startsWith (split_colon_first a) ''i3-''
          \<longrightarrow> a \<notin> set (available_adapters (providers reg) model)"
    using keys eq by auto
  have incl: "\<forall>a \<in> set (adapters model).
          startsWith (split_colon_first a) ''i3-''
          \<longrightarrow> a \<in> set (available_adapters (providers reg) model)"
    using eq by auto
  from keys eq entry excl incl show ?thesis by blast
qed

theorem available_adapters_in_registry_witness:
  "\<exists>reg. getUserRegistryInternal example_decryptKey registry_db ''alice'' = Inr reg
     \<and> available_adapters (providers reg) (MODELS_SHARED ! 3) = []
     \<and> map_option adapters (map_of (models reg) ''gpt-4.1'') = Some []
     \<and> map_option adapters (map_of (models reg) ''gemini-2.0-flash'')
         = Some [''i3-google:gemini-2.0-flash'', ''google:gemini-2.0-flash'']"
proof -
  obtain reg where reg: "getUserRegistryInternal example_decryptKey registry_db ''alice'' = Inr reg"
    using registry_db_returns by blast
  have m3: "MODELS_SHARED ! 3 \<in> set MODELS_SHARED" and m5: "MODELS_SHARED ! 5 \<in> set MODELS_SHARED"
    and m12: "MODELS_SHARED ! 12 \<in> set MODELS_SHARED"
    by (simp_all add: catalog_length)
  have keys: "fst ` set (providers reg) = {''google'', ''my-llm''}"
    using available_adapters_in_registry[OF reg m3] by (simp add: registry_db_enabled_ids)
  have n5: "m_id (MODELS_SHARED ! 5) \<notin> fst ` set (filter (\<lambda>e. enabled (snd e))
                                  (customModels (snd (getSettings registry_db ''alice''))))"
    by (simp add: registry_db_customModels catalog_5)
  have id12: "m_id (MODELS_SHARED ! 12) = ''gemini-2.0-flash''"
    by (simp add: MODELS_SHARED_def base_model_def)
  have n12: "m_id (MODELS_SHARED ! 12) \<notin> fst ` set (filter (\<lambda>e. enabled (snd e))
                                  (customModels (snd (getSettings registry_db ''alice''))))"
    by (simp add: registry_db_customModels id12)
  from available_adapters_in_registry[OF reg m3]
  have "available_adapters (providers reg) (MODELS_SHARED ! 3)
          = filter (\<lambda>a. split_colon_first a \<in> fst ` set (providers reg)
                         \<or> startsWith (split_colon_first a) ''i3-'') (adapters (MODELS_SHARED ! 3))"
    by blast
  then have 3: "available_adapters (providers reg) (MODELS_SHARED ! 3) = []"
    by (simp add: keys catalog_3 split_colon_first_def startsWith_def)
  from available_adapters_in_registry[OF reg m5] n5
  have "map_option adapters (map_of (models reg) (m_id (MODELS_SHARED ! 5)))
          = Some (filter (\<lambda>a. split_colon_first a \<in> fst ` set (providers reg)
                         \<or> startsWith (split_colon_first a) ''i3-'') (adapters (MODELS_SHARED ! 5)))"
    by metis
  then have 5: "map_option adapters (map_of (models reg) ''gpt-4.1'') = Some []"
    by (simp add: keys catalog_5 split_colon_first_def startsWith_def)
  from available_adapters_in_registry[OF reg m12] n12
  have "map_option adapters (map_of (models reg) (m_id (MODELS_SHARED ! 12)))
          = Some (filter (\<lambda>a. split_colon_first a \<in> fst ` set (providers reg)
                         \<or> startsWith (split_colon_first a) ''i3-'') (adapters (MODELS_SHARED ! 12)))"
    by metis
  then have 12: "map_option adapters (map_of (models reg) ''gemini-2.0-flash'')
         = Some [''i3-google:gemini-2.0-flash'', ''google:gemini-2.0-flash'']"
    by (simp add: keys catalog_12 id12 split_colon_first_def startsWith_def)
  from reg 3 5 12 show ?thesis by blast
qed

text \<open>
  The wording of the specification fails for a disabled credential stored under an
  internal-prefixed id: the user has no enabled credential at all, the credential of
  \<^verbatim>\<open>i3-openai\<close> is disabled and holds a key, and the resolver returns the adapter of
  that provider for the catalog model \<^verbatim>\<open>gpt-4o-mini\<close>.
\<close>

theorem disabled_internal_id_counterexample:
  "\<not> isl (getUserRegistryInternal example_decryptKey internal_id_db ''alice'')
   \<and> map_of (coreAIProviders (snd (getSettings internal_id_db ''alice''))) ''i3-openai''
       = Some \<lparr> enabled = False, encryptedKey = ''enc:sk-old'' \<rparr>
   \<and> enabled_provider_ids (snd (getSettings internal_id_db ''alice'')) = []
   \<and> map_option adapters
       (map_of (models (projr (getUserRegistryInternal example_decryptKey internal_id_db
                                 ''alice''))) ''gpt-4o-mini'')
       = Some [''i3-openai:gpt-4o-mini'']"
proof -
  have st: "getSettings internal_id_db ''alice'' = (Some 0, internal_id_db ! 0)"
    by (simp add: getSettings_def internal_id_db_def DefaultSettings_def)
  have core: "coreAIProviders (snd (getSettings internal_id_db ''alice''))
                = [ (''i3-openai'', \<lparr> enabled = False, encryptedKey = ''enc:sk-old'' \<rparr>) ]"
    and custom: "customAIProviders (snd (getSettings internal_id_db ''alice'')) = []"
    and cms: "customModels (snd (getSettings internal_id_db ''alice'')) = []"
    by (simp_all add: st) (simp_all add: internal_id_db_def DefaultSettings_def)
  have "\<exists>reg. getUserRegistryInternal example_decryptKey internal_id_db ''alice'' = Inr reg"
    by (simp add: getUserRegistryInternal_def Let_def core custom)
  then obtain reg where
    reg: "getUserRegistryInternal example_decryptKey internal_id_db ''alice'' = Inr reg" ..
  have ids: "enabled_provider_ids (snd (getSettings internal_id_db ''alice'')) = []"
    by (simp add: enabled_provider_ids_def core custom)
  have m4: "MODELS_SHARED ! 4 \<in> set MODELS_SHARED"
    by (simp add: catalog_length)
  have c4: "m_id (MODELS_SHARED ! 4) = ''gpt-4o-mini''
            \<and> adapters (MODELS_SHARED ! 4) = [''i3-openai:gpt-4o-mini'', ''openai:gpt-4o-mini'']"
    by (simp add: MODELS_SHARED_def base_model_def)
  have "map_of (models reg) (m_id (MODELS_SHARED ! 4))
          = Some (catalog_entry (providers reg) (MODELS_SHARED ! 4))"
    by (rule registry_catalog_entry[OF reg m4]) (simp add: cms)
  moreover have "available_adapters (providers reg) (MODELS_SHARED ! 4) = [''i3-openai:gpt-4o-mini'']"
    by (simp add: registry_available_adapters[OF reg m4] ids c4 split_colon_first_def
        startsWith_def)
  ultimately have "map_option adapters (map_of (models reg) ''gpt-4o-mini'')
                     = Some [''i3-openai:gpt-4o-mini'']"
    by (simp add: c4 catalog_entry_def)
  with reg ids core show ?thesis by simp
qed

subsection \<open>Entries of the models map\<close>

text \<open>
  C6. When the resolver returns, the keys of the models map are the ids of the catalog
  models and the keys of the enabled custom models, each once. An enabled custom model has
  the entry synthesized from it, whose only adapter is \<^verbatim>\<open>providerId:modelId\<close>, also
  when its key is the id of a catalog model. Every other catalog model has its catalog
  entry with \<^verbatim>\<open>available_adapters\<close> as adapters, empty or not. The entries of the
  stored \<^verbatim>\<open>customModels\<close> object have distinct keys.
\<close>

theorem registry_models_entries:
  assumes "getUserRegistryInternal decryptKey db uid = Inr reg"
    and "distinct (map fst (customModels (snd (getSettings db uid))))"
  shows "fst ` set (models reg)
           = m_id ` set MODELS_SHARED
             \<union> fst ` set (filter (\<lambda>e. enabled (snd e)) (customModels (snd (getSettings db uid))))
    \<and> distinct (map fst (models reg))
    \<and> (\<forall>e \<in> set (customModels (snd (getSettings db uid))).
          enabled (snd e) \<longrightarrow>
            map_of (models reg) (fst e) = Some (custom_entry (snd e))
            \<and> adapters (custom_entry (snd e)) = [providerId (snd e) @ '':'' @ modelId (snd e)])
    \<and> (\<forall>m \<in> set MODELS_SHARED.
          m_id m \<notin> fst ` set (filter (\<lambda>e. enabled (snd e))
                                  (customModels (snd (getSettings db uid)))) \<longrightarrow>
            map_of (models reg) (m_id m) = Some (catalog_entry (providers reg) m)
            \<and> adapters (catalog_entry (providers reg) m) = available_adapters (providers reg) m)"
proof -
  let ?cms = "customModels (snd (getSettings db uid))"
  have ms: "models reg = registry_custom_models ?cms
                           (registry_catalog_models (providers reg) MODELS_SHARED [])"
    using assms(1)
    by (auto simp: getUserRegistryInternal_def Let_def split: sum.splits)
  have 1: "fst ` set (models reg)
           = m_id ` set MODELS_SHARED \<union> fst ` set (filter (\<lambda>e. enabled (snd e)) ?cms)"
    by (simp add: ms custom_models_keys catalog_models_keys)
  have 2: "distinct (map fst (models reg))"
    by (simp add: ms custom_models_distinct catalog_models_distinct)
  have 3: "map_of (models reg) (fst e) = Some (custom_entry (snd e))
           \<and> adapters (custom_entry (snd e)) = [providerId (snd e) @ '':'' @ modelId (snd e)]"
    if "e \<in> set ?cms" "enabled (snd e)" for e
  proof -
    from that(1) have "(fst e, snd e) \<in> set ?cms" by simp
    from custom_models_entry[OF assms(2) this that(2)]
    show ?thesis by (simp add: ms custom_entry_def)
  qed
  have 4: "map_of (models reg) (m_id m) = Some (catalog_entry (providers reg) m)
           \<and> adapters (catalog_entry (providers reg) m) = available_adapters (providers reg) m"
    if "m \<in> set MODELS_SHARED"
      "m_id m \<notin> fst ` set (filter (\<lambda>e. enabled (snd e)) ?cms)" for m
    using that
    by (simp add: ms custom_models_other catalog_models_entry[OF catalog_ids_distinct]
        catalog_entry_def)
  from 1 2 3 4 show ?thesis by blast
qed

theorem registry_models_entries_witness:
  "\<exists>reg. getUserRegistryInternal example_decryptKey registry_db ''alice'' = Inr reg
     \<and> map_option adapters (map_of (models reg) ''my-model'') = Some [''my-llm:llama-x'']
     \<and> map_option adapters (map_of (models reg) ''gpt-4o'') = Some [''my-llm:gpt-4o-proxy'']
     \<and> map_option adapters (map_of (models reg) ''gpt-4.1'') = Some []
     \<and> map_of (models reg) ''off-model'' = None"
proof -
  obtain reg where reg: "getUserRegistryInternal example_decryptKey registry_db ''alice'' = Inr reg"
    using registry_db_returns by blast
  have d: "distinct (map fst (customModels (snd (getSettings registry_db ''alice''))))"
    by (simp add: registry_db_customModels)
  note t = registry_models_entries[OF reg d, unfolded registry_db_customModels]
  have m5: "MODELS_SHARED ! 5 \<in> set MODELS_SHARED"
    by (simp add: catalog_length)
  from t have 1: "map_option adapters (map_of (models reg) ''my-model'') = Some [''my-llm:llama-x'']"
    by simp
  from t have 2: "map_option adapters (map_of (models reg) ''gpt-4o'') = Some [''my-llm:gpt-4o-proxy'']"
    by simp
  from registry_models_entries[OF reg d]
  have cat: "\<forall>m \<in> set MODELS_SHARED.
          m_id m \<notin> fst ` set (filter (\<lambda>e. enabled (snd e))
                                  (customModels (snd (getSettings registry_db ''alice'')))) \<longrightarrow>
            map_of (models reg) (m_id m) = Some (catalog_entry (providers reg) m)
            \<and> adapters (catalog_entry (providers reg) m) = available_adapters (providers reg) m"
    by blast
  have "m_id (MODELS_SHARED ! 5) \<notin> fst ` set (filter (\<lambda>e. enabled (snd e))
                                  (customModels (snd (getSettings registry_db ''alice''))))"
    by (simp add: registry_db_customModels catalog_5)
  with cat m5 have "map_of (models reg) (m_id (MODELS_SHARED ! 5))
                    = Some (catalog_entry (providers reg) (MODELS_SHARED ! 5))
      \<and> adapters (catalog_entry (providers reg) (MODELS_SHARED ! 5))
          = available_adapters (providers reg) (MODELS_SHARED ! 5)"
    by blast
  moreover have "available_adapters (providers reg) (MODELS_SHARED ! 5) = []"
    by (simp add: available_adapters_own[OF catalog_model_not_inherited[OF m5]]
        registry_providers_keys[OF reg] registry_db_enabled_ids catalog_5
        split_colon_first_def startsWith_def)
  ultimately have 3: "map_option adapters (map_of (models reg) ''gpt-4.1'') = Some []"
    by (simp add: catalog_5)
  from t have "''off-model'' \<notin> fst ` set (models reg)"
    by (simp add: off_model_not_catalog)
  then have 4: "map_of (models reg) ''off-model'' = None"
    by (simp add: map_of_eq_None_iff)
  from reg 1 2 3 4 show ?thesis by blast
qed

subsection \<open>Determinism\<close>

lemma core_providers_cong:
  "(\<forall>c \<in> set (map (\<lambda>e. encryptedKey (snd e)) (filter (\<lambda>e. enabled (snd e)) xs)). d1 c = d2 c)
   \<Longrightarrow> registry_core_providers d1 xs ps = registry_core_providers d2 xs ps"
  by (induction xs arbitrary: ps) (auto split: sum.splits)

lemma custom_providers_cong:
  "(\<forall>c \<in> set (map (\<lambda>e. encryptedKey (snd e)) (filter (\<lambda>e. enabled (snd e)) xs)). d1 c = d2 c)
   \<Longrightarrow> registry_custom_providers d1 xs ps = registry_custom_providers d2 xs ps"
  by (induction xs arbitrary: ps) (auto split: sum.splits)

text \<open>
  C7. The result of the resolver is a function of the catalog, which is a constant, of
  the settings snapshot of the user and of what \<^verbatim>\<open>decryptKey\<close> returns for the
  ciphertexts of the enabled credentials: two runs on tables that give the same snapshot,
  with collaborators that agree on those ciphertexts, return the same providers, models
  and settings, or throw the same error.
\<close>

theorem registry_deterministic:
  assumes "getSettings db1 uid = getSettings db2 uid"
    and "\<forall>c \<in> set (enabled_ciphertexts (snd (getSettings db1 uid))). decryptKey1 c = decryptKey2 c"
  shows "getUserRegistryInternal decryptKey1 db1 uid = getUserRegistryInternal decryptKey2 db2 uid"
proof -
  let ?st = "snd (getSettings db1 uid)"
  have core: "registry_core_providers decryptKey1 (coreAIProviders ?st) ps
                = registry_core_providers decryptKey2 (coreAIProviders ?st) ps" for ps
    using assms(2) by (intro core_providers_cong) (simp add: enabled_ciphertexts_def)
  have custom: "registry_custom_providers decryptKey1 (customAIProviders ?st) ps
                = registry_custom_providers decryptKey2 (customAIProviders ?st) ps" for ps
    using assms(2) by (intro custom_providers_cong) (simp add: enabled_ciphertexts_def)
  show ?thesis
    unfolding getUserRegistryInternal_def assms(1)[symmetric] Let_def core custom ..
qed

theorem registry_deterministic_witness:
  "getUserRegistryInternal example_decryptKey registry_db ''alice''
     = getUserRegistryInternal other_decryptKey (registry_db @ [DefaultSettings ''bob'']) ''alice''"
proof -
  have s: "getSettings registry_db ''alice'' = getSettings (registry_db @ [DefaultSettings ''bob'']) ''alice''"
    by (simp add: getSettings_def registry_db_def DefaultSettings_def)
  have c: "\<forall>c \<in> set (enabled_ciphertexts (snd (getSettings registry_db ''alice''))).
             example_decryptKey c = other_decryptKey c"
    by (simp add: registry_db_settings) (simp add: registry_db_def enabled_ciphertexts_def other_decryptKey_def)
  from registry_deterministic[OF s c] show ?thesis .
qed

subsection \<open>A failing decryption\<close>

text \<open>
  Whenever \<^verbatim>\<open>decryptKey\<close> throws for the ciphertext of an enabled core credential, the
  resolver throws.
\<close>

lemma core_providers_fail:
  "(pid, c) \<in> set xs \<Longrightarrow> enabled c \<Longrightarrow> dec (encryptedKey c) = Inl e \<Longrightarrow>
   \<exists>e'. registry_core_providers dec xs ps = Inl e'"
proof (induction xs arbitrary: ps)
  case Nil
  then show ?case by simp
next
  case (Cons x xs)
  obtain pid' c' where x: "x = (pid', c')" by (cases x)
  show ?case
  proof (cases "x = (pid, c)")
    case True
    with Cons.prems show ?thesis by simp
  next
    case False
    with Cons.prems have "(pid, c) \<in> set xs" by simp
    from Cons.IH[OF this Cons.prems(2,3)] x show ?thesis
      by (auto split: sum.splits)
  qed
qed

lemma registry_fails_when_decryption_fails:
  assumes "(pid, c) \<in> set (coreAIProviders (snd (getSettings db uid)))"
    and "enabled c" and "decryptKey (encryptedKey c) = Inl e"
  shows "\<exists>e'. getUserRegistryInternal decryptKey db uid = Inl e'"
  using core_providers_fail[where dec = decryptKey and ps = "[]", OF assms]
  by (auto simp: getUserRegistryInternal_def Let_def)

text \<open>
  C2 fails for the resolver. For a user whose enabled OpenAI credential holds a
  ciphertext that \<^verbatim>\<open>decryptKey\<close> refuses, \<^verbatim>\<open>getUserRegistryInternal\<close> throws the
  error of \<^verbatim>\<open>decryptKey\<close>: its two loops call \<^verbatim>\<open>decryptKey\<close> outside any
  \<^verbatim>\<open>try\<close>. The two key queries catch it and return \<^verbatim>\<open>null\<close> for the same
  ciphertext.
\<close>

theorem registry_propagates_decryption_failure:
  "getUserRegistryInternal example_decryptKey broken_key_db ''alice'' = Inl DecryptionFailure
   \<and> getSupermemoryKey example_decryptKey broken_key_db ''alice'' = None
   \<and> getDecryptedGeneralProviderKey example_decryptKey broken_key_db ''supermemory'' ''alice'' = None"
  by (simp add: getUserRegistryInternal_def getSupermemoryKey_def
      getDecryptedGeneralProviderKey_def broken_key_db_def getSettings_def DefaultSettings_def
      example_decryptKey_def decrypt_or_null_def js_get_def)

section \<open>Writing a document\<close>

lemma getSettings_cases:
  "(getSettings db uid = (None, DefaultSettings uid) \<and> first_byUser db uid = None)
   \<or> (\<exists>i. getSettings db uid = (Some i, db ! i) \<and> first_byUser db uid = Some i \<and> i < length db)"
  by (cases "first_byUser db uid") (auto simp: getSettings_def dest: first_byUser_Some)

lemma patch_doc_fields:
  "userId (patch_doc old new) = userId new"
  "coreAIProviders (patch_doc old new) = coreAIProviders new"
  "customAIProviders (patch_doc old new) = customAIProviders new"
  "customModels (patch_doc old new) = customModels new"
  by (simp_all add: patch_doc_def)

lemma save_written:
  assumes "save db (fst (getSettings db uid)) new = (None, db')"
  shows "\<exists>old. written_doc (fst (getSettings db uid)) db' = patch_doc old new"
    and "userId new = uid \<Longrightarrow> snd (getSettings db' uid) = written_doc (fst (getSettings db uid)) db'"
proof -
  from getSettings_cases[of db uid]
  have "(\<exists>old. written_doc (fst (getSettings db uid)) db' = patch_doc old new)
        \<and> (userId new = uid \<longrightarrow> snd (getSettings db' uid) = written_doc (fst (getSettings db uid)) db')"
  proof (elim disjE exE conjE)
    assume g: "getSettings db uid = (None, DefaultSettings uid)" and f: "first_byUser db uid = None"
    from assms g have db': "db' = db @ [new]"
      by (auto simp: save_def db_insert_def split: if_splits)
    have "patch_doc new new = new" by (rule patch_doc_same)
    then have "written_doc (fst (getSettings db uid)) db' = patch_doc new new"
      using g db' by (simp add: written_doc_def)
    then have 1: "\<exists>old. written_doc (fst (getSettings db uid)) db' = patch_doc old new" ..
    have 2: "snd (getSettings db' uid) = written_doc (fst (getSettings db uid)) db'" if "userId new = uid"
      using first_byUser_append[OF f that] g db'
      by (simp add: getSettings_def written_doc_def)
    from 1 2 show ?thesis by blast
  next
    fix i
    assume g: "getSettings db uid = (Some i, db ! i)" and f: "first_byUser db uid = Some i"
      and i: "i < length db"
    from assms g i have db': "db' = db[i := patch_doc (db ! i) new]"
      by (auto simp: save_def db_patch_def split: if_splits)
    with g i have 1: "written_doc (fst (getSettings db uid)) db' = patch_doc (db ! i) new"
      by (simp add: written_doc_def)
    have 2: "snd (getSettings db' uid) = written_doc (fst (getSettings db uid)) db'" if "userId new = uid"
    proof -
      from that have "userId (patch_doc (db ! i) new) = uid" by (simp add: patch_doc_fields)
      from first_byUser_update[OF f this] db' g i show ?thesis
        by (simp add: getSettings_def written_doc_def)
    qed
    from 1 2 show ?thesis by blast
  qed
  then show "\<exists>old. written_doc (fst (getSettings db uid)) db' = patch_doc old new"
    and "userId new = uid \<Longrightarrow> snd (getSettings db' uid) = written_doc (fst (getSettings db uid)) db'"
    by blast+
qed

lemma schema_ok_general:
  "generalProviders d = Some g \<Longrightarrow> schema_ok d \<longleftrightarrow> fst ` set g \<subseteq> set general_provider_ids"
  by (auto simp: schema_ok_def list_all_iff)

lemma schema_ok_iff:
  "schema_ok d \<longleftrightarrow> (\<forall>g. generalProviders d = Some g \<longrightarrow> fst ` set g \<subseteq> set general_provider_ids)"
  by (auto simp: schema_ok_def list_all_iff split: option.splits)

lemma general_keys_ok_iff:
  "general_keys_ok gs \<longleftrightarrow> (\<forall>us. gs = Some us \<longrightarrow> fst ` set us \<subseteq> set general_provider_ids)"
  by (auto simp: general_keys_ok_def list_all_iff split: option.splits)

lemma general_keys_list:
  "list_all (\<lambda>k. k \<in> set general_provider_ids) (map fst g) \<longleftrightarrow> fst ` set g \<subseteq> set general_provider_ids"
  by (auto simp: list_all_iff)

lemma supermemory_id: "''supermemory'' \<in> set general_provider_ids"
  by (simp add: general_provider_ids_def)

lemma patch_doc_general:
  "generalProviders (patch_doc old new)
     = (case generalProviders new of None \<Rightarrow> generalProviders old | Some g \<Rightarrow> Some g)"
  by (simp add: patch_doc_def)

lemma patch_doc_schema_ok: "schema_ok old \<Longrightarrow> schema_ok new \<Longrightarrow> schema_ok (patch_doc old new)"
  by (auto simp: schema_ok_iff patch_doc_general split: option.splits)

lemma getSettings_schema_ok: "list_all schema_ok db \<Longrightarrow> schema_ok (snd (getSettings db uid))"
  using getSettings_cases[of db uid]
  by (auto simp: list_all_length schema_ok_def DefaultSettings_def)

lemma save_ok:
  assumes "schema_ok (patch_doc (snd (getSettings db uid)) new)" and "schema_ok new"
  shows "\<exists>db'. save db (fst (getSettings db uid)) new = (None, db')"
  using getSettings_cases[of db uid] assms
  by (auto simp: save_def db_patch_def db_insert_def)

lemma registry_db_valid: "list_all schema_ok registry_db"
  by (simp add: registry_db_def schema_ok_def DefaultSettings_def)

lemma registry_db_id: "fst (getSettings registry_db ''alice'') = Some 0"
  by (simp add: registry_db_settings)

lemma registry_db_core:
  "coreAIProviders (snd (getSettings registry_db ''alice''))
     = [ (''openai'', \<lparr> enabled = False, encryptedKey = ''enc:sk-old'' \<rparr>),
         (''google'', \<lparr> enabled = True, encryptedKey = ''enc:g-key'' \<rparr>) ]"
  by (simp add: registry_db_settings) (simp add: registry_db_def)

lemma registry_db_custom:
  "customAIProviders (snd (getSettings registry_db ''alice''))
     = [ (''my-llm'',
                 \<lparr> enabled = True, encryptedKey = ''enc:ck'',
                   endpoint = ''https://llm.example/v1'', name = ''My LLM'' \<rparr>) ]"
  by (simp add: registry_db_settings) (simp add: registry_db_def)

section \<open>Full update\<close>

subsection \<open>The loops over the core and the custom providers\<close>

lemma stored_or_empty:
  "or_empty (optional_key (js_get stored pid))
     = (case map_of stored pid of None \<Rightarrow> [] | Some c \<Rightarrow> encryptedKey c)"
  by (simp add: js_get_def split: option.splits)

lemma update_core_other:
  "pid \<notin> fst ` set xs \<Longrightarrow>
   map_of (update_core_providers enc stored xs new) pid = map_of new pid"
  by (induction xs arbitrary: new) (auto simp: update_conv')

lemma update_core_entry:
  "distinct (map fst xs) \<Longrightarrow> (pid, p) \<in> set xs \<Longrightarrow>
   map_of (update_core_providers enc stored xs new) pid
     = Some \<lparr> enabled = enabled p,
              encryptedKey = new_or_stored enc (newKey p)
                               (or_empty (optional_key (js_get stored pid))) \<rparr>"
proof (induction xs arbitrary: new)
  case Nil
  then show ?case by simp
next
  case (Cons x xs)
  show ?case
  proof (cases "x = (pid, p)")
    case True
    with Cons.prems have "pid \<notin> fst ` set xs" by force
    with True show ?thesis by (simp add: update_core_other update_conv')
  next
    case False
    with Cons show ?thesis by (cases x) auto
  qed
qed

lemma custom_key_error: "custom_key enc stored pid nk = Inl e \<Longrightarrow> e = TypeError"
  by (cases nk) (auto simp: stored_custom_key_def split: lookup.splits if_splits)

lemma update_custom_error:
  "update_custom_providers enc stored xs new = Inl e \<Longrightarrow> e = TypeError"
  by (induction xs arbitrary: new) (auto split: sum.splits dest: custom_key_error)

lemma update_custom_fail:
  "(pid, p) \<in> set xs \<Longrightarrow> custom_key enc stored pid (newKey p) = Inl TypeError \<Longrightarrow>
   update_custom_providers enc stored xs new = Inl TypeError"
proof (induction xs arbitrary: new)
  case Nil
  then show ?case by simp
next
  case (Cons x xs)
  obtain pid' p' where x: "x = (pid', p')" by (cases x)
  show ?case
  proof (cases "custom_key enc stored pid' (newKey p')")
    case (Inl e)
    then have "e = TypeError" by (rule custom_key_error)
    with Inl x show ?thesis by simp
  next
    case (Inr k)
    with Cons.prems x have "(pid, p) \<in> set xs" by auto
    from Cons.IH[OF this Cons.prems(2)] Inr x show ?thesis by simp
  qed
qed

lemma update_custom_other:
  "update_custom_providers enc stored xs new = Inr r \<Longrightarrow> pid \<notin> fst ` set xs \<Longrightarrow>
   map_of r pid = map_of new pid"
proof (induction xs arbitrary: new)
  case Nil
  then show ?case by simp
next
  case (Cons x xs)
  obtain pid' p' where x: "x = (pid', p')" by (cases x)
  from Cons.prems x obtain k where k: "custom_key enc stored pid' (newKey p') = Inr k"
    by (auto split: sum.splits)
  with Cons.prems x have "map_of r pid =
     map_of (AList.update pid' \<lparr> enabled = enabled p', encryptedKey = k,
                 endpoint = new_endpoint p', name = new_name p' \<rparr> new) pid"
    by (intro Cons.IH) auto
  with Cons.prems(2) x show ?case by (simp add: update_conv')
qed

lemma update_custom_entry:
  "update_custom_providers enc stored xs new = Inr r \<Longrightarrow> distinct (map fst xs) \<Longrightarrow>
   (pid, p) \<in> set xs \<Longrightarrow>
   \<exists>k. custom_key enc stored pid (newKey p) = Inr k
      \<and> map_of r pid = Some \<lparr> enabled = enabled p, encryptedKey = k,
                                endpoint = new_endpoint p, name = new_name p \<rparr>"
proof (induction xs arbitrary: new)
  case Nil
  then show ?case by simp
next
  case (Cons x xs)
  obtain pid' p' where x: "x = (pid', p')" by (cases x)
  from Cons.prems x obtain k where k: "custom_key enc stored pid' (newKey p') = Inr k"
    and rest: "update_custom_providers enc stored xs
                 (AList.update pid' \<lparr> enabled = enabled p', encryptedKey = k,
                    endpoint = new_endpoint p', name = new_name p' \<rparr> new) = Inr r"
    by (auto split: sum.splits)
  show ?case
  proof (cases "x = (pid, p)")
    case True
    with Cons.prems have "pid \<notin> fst ` set xs" by force
    from update_custom_other[OF rest this] True x k show ?thesis
      by (simp add: update_conv')
  next
    case False
    with Cons.prems have "(pid, p) \<in> set xs" "distinct (map fst xs)" by auto
    from Cons.IH[OF rest this(2) this(1)] show ?thesis .
  qed
qed

lemma defined_keys_entry:
  "defined_keys xs = Some ys \<Longrightarrow> map_of xs pid = Some p \<Longrightarrow>
   \<exists>k. encryptedKey p = Some k
      \<and> map_of ys pid = Some \<lparr> enabled = enabled p, encryptedKey = k,
                                 endpoint = endpoint p, name = name p \<rparr>"
proof (induction xs arbitrary: ys)
  case Nil
  then show ?case by simp
next
  case (Cons x xs)
  obtain pid' p' where x: "x = (pid', p')" by (cases x)
  from Cons.prems(1) x obtain k' ys' where k': "encryptedKey p' = Some k'"
    and ys': "defined_keys xs = Some ys'"
    and ys: "ys = (pid', \<lparr> enabled = enabled p', encryptedKey = k',
                            endpoint = endpoint p', name = name p' \<rparr>) # ys'"
    by (auto split: option.splits)
  show ?case
  proof (cases "pid' = pid")
    case True
    with Cons.prems(2) x k' ys show ?thesis by simp
  next
    case False
    with Cons.prems(2) x have "map_of xs pid = Some p" by simp
    from Cons.IH[OF ys' this] False ys show ?thesis by simp
  qed
qed

lemma defined_keys_None:
  "(pid, p) \<in> set xs \<Longrightarrow> encryptedKey p = None \<Longrightarrow> defined_keys xs = None"
  by (induction xs) (auto split: option.splits)

lemma copy_general_keys: "fst ` set (copy_general g) \<subseteq> set general_provider_ids"
  by (auto simp: copy_general_def general_provider_ids_def split: option.splits)

lemma update_general_keys:
  "fst ` set (update_general_providers enc stored us new) = fst ` set new \<union> fst ` set us"
proof (induction us arbitrary: new)
  case Nil
  then show ?case by simp
next
  case (Cons u us)
  obtain k v where u: "u = (k, v)" by (cases u)
  have "fst ` set (update_general_providers enc stored (u # us) new)
          = fst ` set (AList.update k (general_entry enc k v (optional_key (js_get stored k))) new)
            \<union> fst ` set us"
    using u Cons.IH by simp
  also have "\<dots> = ({k} \<union> fst ` set new) \<union> fst ` set us"
    by (simp only: dom_update)
  also have "\<dots> = fst ` set new \<union> fst ` set (u # us)"
    using u by auto
  finally show ?case .
qed

subsection \<open>The handler\<close>

lemma full_update_result:
  assumes "updateUserSettings enc (Identity uid) args db = (None, db')"
  shows "\<exists>draft custom'.
           update_custom_providers enc (customAIProviders (snd (getSettings db uid)))
             (customProviders args) [] = Inr draft
         \<and> defined_keys draft = Some custom'
         \<and> customAIProviders (written_doc (fst (getSettings db uid)) db') = custom'
         \<and> coreAIProviders (written_doc (fst (getSettings db uid)) db')
             = update_core_providers enc (coreAIProviders (snd (getSettings db uid)))
                 (coreProviders args) []"
proof -
  from assms have uid: "uid = a_userId args"
    by (auto simp: updateUserSettings_def split: if_splits)
  from assms uid obtain draft where
    draft: "update_custom_providers enc (customAIProviders (snd (getSettings db uid)))
              (customProviders args) [] = Inr draft"
    by (auto simp: updateUserSettings_def Let_def split: sum.splits)
  from assms uid draft obtain custom' where custom': "defined_keys draft = Some custom'"
    by (auto simp: updateUserSettings_def Let_def split: option.splits)
  from assms uid draft custom' obtain new where
    sv: "save db (fst (getSettings db uid)) new = (None, db')"
    and new: "coreAIProviders new = update_core_providers enc
                (coreAIProviders (snd (getSettings db uid))) (coreProviders args) []"
             "customAIProviders new = custom'"
    by (auto simp: updateUserSettings_def Let_def)
  from save_written(1)[OF sv] obtain old where
    "written_doc (fst (getSettings db uid)) db' = patch_doc old new" ..
  with new draft custom' show ?thesis by (simp add: patch_doc_fields)
qed

lemma full_update_core:
  assumes "updateUserSettings enc (Identity uid) args db = (None, db')"
  shows "coreAIProviders (written_doc (fst (getSettings db uid)) db')
             = update_core_providers enc (coreAIProviders (snd (getSettings db uid)))
                 (coreProviders args) []"
  using full_update_result[OF assms] by blast

lemma full_update_succeeds:
  assumes "update_custom_providers enc (customAIProviders (snd (getSettings db (a_userId args))))
             (customProviders args) [] = Inr draft"
    and "defined_keys draft = Some custom'"
    and "general_keys_ok (a_generalProviders args)"
  shows "\<exists>db'. updateUserSettings enc (Identity (a_userId args)) args db = (None, db')"
proof -
  let ?g0 = "copy_general (stored_general (snd (getSettings db (a_userId args))))"
  have g0: "fst ` set ?g0 \<subseteq> set general_provider_ids"
    by (rule copy_general_keys)
  show ?thesis
    unfolding updateUserSettings_def
    using assms g0
    apply (simp add: Let_def)
    apply (rule save_ok)
     apply (auto simp: schema_ok_def patch_doc_def general_keys_list general_keys_ok_def
        update_general_keys dom_update supermemory_id split: option.splits)
    done
qed

lemma full_request_fields:
  "a_userId (full_request core custom) = ''alice''"
  "coreProviders (full_request core custom) = core"
  "customProviders (full_request core custom) = custom"
  "a_generalProviders (full_request core custom) = None"
  by (simp_all add: full_request_def)

lemma keep_request_runs:
  "\<exists>db'. updateUserSettings example_encryptKey (Identity ''alice'') keep_request registry_db
          = (None, db')"
proof -
  have "\<exists>db'. updateUserSettings example_encryptKey (Identity (a_userId keep_request))
               keep_request registry_db = (None, db')"
  proof (rule full_update_succeeds)
    show "update_custom_providers example_encryptKey
            (customAIProviders (snd (getSettings registry_db (a_userId keep_request))))
            (customProviders keep_request) []
          = Inr [ (''my-llm'', \<lparr> enabled = True, encryptedKey = Some ''enc:ck'',
                     endpoint = ''https://llm.example/v1'', name = ''My LLM'' \<rparr>) ]"
      by (simp add: keep_request_def full_request_fields registry_db_custom
          stored_custom_key_def js_get_def)
    show "defined_keys [ (''my-llm'', \<lparr> enabled = True, encryptedKey = Some ''enc:ck'',
                     endpoint = ''https://llm.example/v1'', name = ''My LLM'' \<rparr>) ]
          = Some [ (''my-llm'', \<lparr> enabled = True, encryptedKey = ''enc:ck'',
                     endpoint = ''https://llm.example/v1'', name = ''My LLM'' \<rparr>) ]"
      by simp
    show "general_keys_ok (a_generalProviders keep_request)"
      by (simp add: keep_request_def full_request_fields general_keys_ok_def)
  qed
  then show ?thesis by (simp add: keep_request_def full_request_fields)
qed

lemma empty_key_request_runs:
  "\<exists>db'. updateUserSettings example_encryptKey (Identity ''alice'') empty_key_request registry_db
          = (None, db')"
proof -
  have "\<exists>db'. updateUserSettings example_encryptKey (Identity (a_userId empty_key_request))
               empty_key_request registry_db = (None, db')"
  proof (rule full_update_succeeds)
    show "update_custom_providers example_encryptKey
            (customAIProviders (snd (getSettings registry_db (a_userId empty_key_request))))
            (customProviders empty_key_request) [] = Inr []"
      by (simp add: empty_key_request_def full_request_fields)
    show "defined_keys [] = Some []"
      by simp
    show "general_keys_ok (a_generalProviders empty_key_request)"
      by (simp add: empty_key_request_def full_request_fields general_keys_ok_def)
  qed
  then show ?thesis by (simp add: empty_key_request_def full_request_fields)
qed

subsection \<open>Keys kept and keys replaced\<close>

text \<open>
  C4, as the code has it. After a full update that succeeds, the document written holds
  an entry for every core and every custom provider of the request, and its
  \<^verbatim>\<open>encryptedKey\<close> is the encryption of \<^verbatim>\<open>newKey\<close> when \<^verbatim>\<open>newKey\<close> is a
  non-empty string, and the key stored before for that provider id when \<^verbatim>\<open>newKey\<close> is
  absent or the empty string (for a core provider with no stored entry, the empty string).
  The entries of each request object have distinct keys.
\<close>

theorem full_update_keeps_or_encrypts:
  assumes "updateUserSettings encryptKey (Identity uid) args db = (None, db')"
    and "distinct (map fst (coreProviders args))"
    and "distinct (map fst (customProviders args))"
  shows "(\<forall>e \<in> set (coreProviders args). \<exists>c.
            map_of (coreAIProviders (written_doc (fst (getSettings db uid)) db')) (fst e) = Some c
            \<and> (\<forall>k. newKey (snd e) = Some k \<and> k \<noteq> [] \<longrightarrow> encryptedKey c = encryptKey k)
            \<and> (\<not> truthy (newKey (snd e)) \<longrightarrow>
                 encryptedKey c
                   = (case map_of (coreAIProviders (snd (getSettings db uid))) (fst e) of
                        None \<Rightarrow> [] | Some s \<Rightarrow> encryptedKey s)))
       \<and> (\<forall>e \<in> set (customProviders args). \<exists>c.
            map_of (customAIProviders (written_doc (fst (getSettings db uid)) db')) (fst e) = Some c
            \<and> (\<forall>k. newKey (snd e) = Some k \<and> k \<noteq> [] \<longrightarrow> encryptedKey c = encryptKey k)
            \<and> (\<not> truthy (newKey (snd e)) \<longrightarrow>
                 (\<exists>s. map_of (customAIProviders (snd (getSettings db uid))) (fst e) = Some s
                      \<and> encryptedKey c = encryptedKey s)))"
proof -
  let ?st = "snd (getSettings db uid)"
  let ?doc = "written_doc (fst (getSettings db uid)) db'"
  from full_update_result[OF assms(1)] obtain draft custom' where
    draft: "update_custom_providers encryptKey (customAIProviders ?st) (customProviders args) []
              = Inr draft"
    and custom': "defined_keys draft = Some custom'"
    and cu: "customAIProviders ?doc = custom'"
    and co: "coreAIProviders ?doc
               = update_core_providers encryptKey (coreAIProviders ?st) (coreProviders args) []"
    by blast
  have core: "\<exists>c. map_of (coreAIProviders ?doc) (fst e) = Some c
            \<and> (\<forall>k. newKey (snd e) = Some k \<and> k \<noteq> [] \<longrightarrow> encryptedKey c = encryptKey k)
            \<and> (\<not> truthy (newKey (snd e)) \<longrightarrow>
                 encryptedKey c
                   = (case map_of (coreAIProviders ?st) (fst e) of
                        None \<Rightarrow> [] | Some s \<Rightarrow> encryptedKey s))"
    if "e \<in> set (coreProviders args)" for e
  proof -
    from that have "(fst e, snd e) \<in> set (coreProviders args)" by simp
    from update_core_entry[OF assms(2) this] co
    have "map_of (coreAIProviders ?doc) (fst e)
            = Some \<lparr> enabled = enabled (snd e),
                     encryptedKey = new_or_stored encryptKey (newKey (snd e))
                       (or_empty (optional_key (js_get (coreAIProviders ?st) (fst e)))) \<rparr>"
      by simp
    then show ?thesis
      by (cases "newKey (snd e)") (auto simp: stored_or_empty)
  qed
  have custom: "\<exists>c. map_of (customAIProviders ?doc) (fst e) = Some c
            \<and> (\<forall>k. newKey (snd e) = Some k \<and> k \<noteq> [] \<longrightarrow> encryptedKey c = encryptKey k)
            \<and> (\<not> truthy (newKey (snd e)) \<longrightarrow>
                 (\<exists>s. map_of (customAIProviders ?st) (fst e) = Some s
                      \<and> encryptedKey c = encryptedKey s))"
    if "e \<in> set (customProviders args)" for e
  proof -
    from that have "(fst e, snd e) \<in> set (customProviders args)" by simp
    from update_custom_entry[OF draft assms(3) this] obtain k where
      k: "custom_key encryptKey (customAIProviders ?st) (fst e) (newKey (snd e)) = Inr k"
      and d: "map_of draft (fst e)
                = Some \<lparr> enabled = enabled (snd e), encryptedKey = k,
                         endpoint = new_endpoint (snd e), name = new_name (snd e) \<rparr>"
      by blast
    from defined_keys_entry[OF custom' d] obtain k' where
      k': "k = Some k'"
      and c: "map_of custom' (fst e)
                = Some \<lparr> enabled = enabled (snd e), encryptedKey = k',
                         endpoint = new_endpoint (snd e), name = new_name (snd e) \<rparr>"
      by auto
    from k k' have
      "(\<forall>x. newKey (snd e) = Some x \<and> x \<noteq> [] \<longrightarrow> k' = encryptKey x)
       \<and> (\<not> truthy (newKey (snd e)) \<longrightarrow>
            (\<exists>s. map_of (customAIProviders ?st) (fst e) = Some s \<and> k' = encryptedKey s))"
      by (cases "newKey (snd e)")
         (auto simp: stored_custom_key_def js_get_def split: option.splits if_splits)
    with c cu show ?thesis by simp
  qed
  from core custom show ?thesis by blast
qed

theorem full_update_keeps_or_encrypts_witness:
  "\<exists>db'. updateUserSettings example_encryptKey (Identity ''alice'') keep_request registry_db
            = (None, db')
     \<and> map_option encryptedKey (map_of (coreAIProviders (written_doc (Some 0) db')) ''openai'')
         = Some ''enc:sk-old''
     \<and> map_option encryptedKey (map_of (coreAIProviders (written_doc (Some 0) db')) ''google'')
         = Some ''enc:g-new''
     \<and> map_option encryptedKey (map_of (customAIProviders (written_doc (Some 0) db')) ''my-llm'')
         = Some ''enc:ck''"
proof -
  obtain db' where run:
    "updateUserSettings example_encryptKey (Identity ''alice'') keep_request registry_db = (None, db')"
    using keep_request_runs by blast
  have d1: "distinct (map fst (coreProviders keep_request))"
    and d2: "distinct (map fst (customProviders keep_request))"
    by (simp_all add: keep_request_def full_request_fields)
  note t = full_update_keeps_or_encrypts[OF run d1 d2]
  from t have core: "\<forall>e \<in> set (coreProviders keep_request). \<exists>c.
            map_of (coreAIProviders (written_doc (fst (getSettings registry_db ''alice'')) db')) (fst e) = Some c
            \<and> (\<forall>k. newKey (snd e) = Some k \<and> k \<noteq> [] \<longrightarrow> encryptedKey c = example_encryptKey k)
            \<and> (\<not> truthy (newKey (snd e)) \<longrightarrow>
                 encryptedKey c
                   = (case map_of (coreAIProviders (snd (getSettings registry_db ''alice''))) (fst e) of
                        None \<Rightarrow> [] | Some s \<Rightarrow> encryptedKey s))"
    by blast
  from t have custom: "\<forall>e \<in> set (customProviders keep_request). \<exists>c.
            map_of (customAIProviders (written_doc (fst (getSettings registry_db ''alice'')) db')) (fst e) = Some c
            \<and> (\<forall>k. newKey (snd e) = Some k \<and> k \<noteq> [] \<longrightarrow> encryptedKey c = example_encryptKey k)
            \<and> (\<not> truthy (newKey (snd e)) \<longrightarrow>
                 (\<exists>s. map_of (customAIProviders (snd (getSettings registry_db ''alice''))) (fst e) = Some s
                      \<and> encryptedKey c = encryptedKey s))"
    by blast
  from core have 1: "map_option encryptedKey (map_of (coreAIProviders (written_doc (Some 0) db')) ''openai'')
         = Some ''enc:sk-old''"
    and 2: "map_option encryptedKey (map_of (coreAIProviders (written_doc (Some 0) db')) ''google'')
         = Some ''enc:g-new''"
    by (auto simp: keep_request_def full_request_fields registry_db_core registry_db_id
        example_encryptKey_def)
  from custom have 3: "map_option encryptedKey (map_of (customAIProviders (written_doc (Some 0) db')) ''my-llm'')
         = Some ''enc:ck''"
    by (auto simp: keep_request_def full_request_fields registry_db_custom registry_db_id)
  from run 1 2 3 show ?thesis by blast
qed

text \<open>
  The wording of the specification fails for a \<^verbatim>\<open>newKey\<close> that is supplied and
  empty: the update succeeds and the document keeps the stored key, which is not the
  encryption of the empty string.
\<close>

theorem full_update_empty_newKey_counterexample:
  "fst (updateUserSettings example_encryptKey (Identity ''alice'') empty_key_request registry_db)
     = None
   \<and> map_option encryptedKey
       (map_of (coreAIProviders
          (written_doc (Some 0)
             (snd (updateUserSettings example_encryptKey (Identity ''alice'') empty_key_request
                     registry_db)))) ''openai'')
       = Some ''enc:sk-old''
   \<and> example_encryptKey [] \<noteq> ''enc:sk-old''"
proof -
  obtain db' where run:
    "updateUserSettings example_encryptKey (Identity ''alice'') empty_key_request registry_db
       = (None, db')"
    using empty_key_request_runs by blast
  from full_update_core[OF run]
  have "coreAIProviders (written_doc (Some 0) db')
          = update_core_providers example_encryptKey
              (coreAIProviders (snd (getSettings registry_db ''alice'')))
              (coreProviders empty_key_request) []"
    by (simp add: registry_db_id)
  then have "map_option encryptedKey (map_of (coreAIProviders (written_doc (Some 0) db')) ''openai'')
               = Some ''enc:sk-old''"
    by (simp add: empty_key_request_def full_request_fields registry_db_core js_get_def)
  with run show ?thesis by (simp add: example_encryptKey_def)
qed

subsection \<open>A provider of the request that is not stored\<close>

text \<open>
  C5. For an authorized caller: if an entry of \<^verbatim>\<open>customProviders\<close> has no usable
  \<^verbatim>\<open>newKey\<close> and \<^verbatim>\<open>settings.customAIProviders[providerId]\<close> is \<^verbatim>\<open>undefined\<close>,
  the full update throws a TypeError and the table stays as it was. Whenever such an entry
  has no stored counterpart the update fails and writes nothing (when the id names a
  property inherited from \<^verbatim>\<open>Object.prototype\<close>, the key read is \<^verbatim>\<open>undefined\<close> and
  it is the write that is refused). The same situation for a core provider, in a request
  with no custom providers and known general provider ids, succeeds and stores the empty
  string as \<^verbatim>\<open>encryptedKey\<close>.
\<close>

theorem full_update_missing_entry:
  "(\<forall>e \<in> set (customProviders args).
      \<not> truthy (newKey (snd e))
      \<and> js_get (customAIProviders (snd (getSettings db (a_userId args)))) (fst e) = Undefined
      \<longrightarrow> updateUserSettings encryptKey (Identity (a_userId args)) args db = (Some TypeError, db))
   \<and> (\<forall>e \<in> set (customProviders args).
      distinct (map fst (customProviders args))
      \<and> \<not> truthy (newKey (snd e))
      \<and> map_of (customAIProviders (snd (getSettings db (a_userId args)))) (fst e) = None
      \<longrightarrow> (\<exists>err. updateUserSettings encryptKey (Identity (a_userId args)) args db = (Some err, db)))
   \<and> (\<forall>e \<in> set (coreProviders args).
      customProviders args = [] \<and> general_keys_ok (a_generalProviders args)
      \<and> distinct (map fst (coreProviders args))
      \<and> \<not> truthy (newKey (snd e))
      \<and> map_of (coreAIProviders (snd (getSettings db (a_userId args)))) (fst e) = None
      \<longrightarrow> (\<exists>db'. updateUserSettings encryptKey (Identity (a_userId args)) args db = (None, db')
            \<and> map_of (coreAIProviders (written_doc (fst (getSettings db (a_userId args))) db')) (fst e)
                = Some \<lparr> enabled = enabled (snd e), encryptedKey = [] \<rparr>))"
proof (intro conjI ballI impI)
  let ?st = "snd (getSettings db (a_userId args))"
  let ?run = "updateUserSettings encryptKey (Identity (a_userId args)) args db"
  have loop_fail: "?run = (Some err, db)"
    if "update_custom_providers encryptKey (customAIProviders ?st) (customProviders args) [] = Inl err"
    for err
    using that by (simp add: updateUserSettings_def Let_def)
  have undefined_fail: "?run = (Some TypeError, db)"
    if "e \<in> set (customProviders args)" "\<not> truthy (newKey (snd e))"
      "js_get (customAIProviders ?st) (fst e) = Undefined" for e
  proof -
    from that(2,3) have "custom_key encryptKey (customAIProviders ?st) (fst e) (newKey (snd e))
                         = Inl TypeError"
      by (cases "newKey (snd e)") (simp_all add: stored_custom_key_def)
    moreover from that(1) have "(fst e, snd e) \<in> set (customProviders args)" by simp
    ultimately have "update_custom_providers encryptKey (customAIProviders ?st)
                       (customProviders args) [] = Inl TypeError"
      by (rule update_custom_fail[rotated])
    then show ?thesis by (rule loop_fail)
  qed
  {
    fix e
    assume "e \<in> set (customProviders args)"
      and "\<not> truthy (newKey (snd e)) \<and> js_get (customAIProviders ?st) (fst e) = Undefined"
    then show "?run = (Some TypeError, db)"
      using undefined_fail by blast
  next
    fix e
    assume e: "e \<in> set (customProviders args)"
      and h: "distinct (map fst (customProviders args)) \<and> \<not> truthy (newKey (snd e))
              \<and> map_of (customAIProviders ?st) (fst e) = None"
    show "\<exists>err. ?run = (Some err, db)"
    proof (cases "update_custom_providers encryptKey (customAIProviders ?st) (customProviders args) []")
      case (Inl err)
      then show ?thesis using loop_fail by blast
    next
      case (Inr draft)
      from e have "(fst e, snd e) \<in> set (customProviders args)" by simp
      from update_custom_entry[OF Inr _ this] h obtain k where
        k: "custom_key encryptKey (customAIProviders ?st) (fst e) (newKey (snd e)) = Inr k"
        and d: "map_of draft (fst e)
                  = Some \<lparr> enabled = enabled (snd e), encryptedKey = k,
                           endpoint = new_endpoint (snd e), name = new_name (snd e) \<rparr>"
        by blast
      from k h have "k = None"
        by (cases "newKey (snd e)")
           (auto simp: stored_custom_key_def js_get_def split: if_splits)
      with d have "(fst e, \<lparr> enabled = enabled (snd e), encryptedKey = None,
                           endpoint = new_endpoint (snd e), name = new_name (snd e) \<rparr>) \<in> set draft"
        by (auto dest: map_of_SomeD)
      then have "defined_keys draft = None"
        by (rule defined_keys_None) simp
      with Inr have "?run = (Some SchemaValidationError, db)"
        by (simp add: updateUserSettings_def Let_def)
      then show ?thesis by blast
    qed
  next
    fix e
    assume e: "e \<in> set (coreProviders args)"
      and h: "customProviders args = [] \<and> general_keys_ok (a_generalProviders args)
              \<and> distinct (map fst (coreProviders args)) \<and> \<not> truthy (newKey (snd e))
              \<and> map_of (coreAIProviders ?st) (fst e) = None"
    from h have loop: "update_custom_providers encryptKey (customAIProviders ?st)
                         (customProviders args) [] = Inr []"
      by simp
    from full_update_succeeds[OF loop _ conjunct1[OF conjunct2[OF h]]]
    obtain db' where db': "?run = (None, db')" by auto
    from full_update_result[OF db']
    have "coreAIProviders (written_doc (fst (getSettings db (a_userId args))) db')
            = update_core_providers encryptKey (coreAIProviders ?st) (coreProviders args) []"
      by blast
    moreover have "map_of (update_core_providers encryptKey (coreAIProviders ?st)
                              (coreProviders args) []) (fst e)
                     = Some \<lparr> enabled = enabled (snd e),
                              encryptedKey = new_or_stored encryptKey (newKey (snd e))
                                (or_empty (optional_key (js_get (coreAIProviders ?st) (fst e)))) \<rparr>"
    proof (rule update_core_entry)
      from h show "distinct (map fst (coreProviders args))" by blast
      from e show "(fst e, snd e) \<in> set (coreProviders args)" by simp
    qed
    moreover from h have "new_or_stored encryptKey (newKey (snd e))
                            (or_empty (optional_key (js_get (coreAIProviders ?st) (fst e)))) = []"
      by (cases "newKey (snd e)") (auto simp: stored_or_empty)
    ultimately have "map_of (coreAIProviders (written_doc (fst (getSettings db (a_userId args))) db')) (fst e)
                = Some \<lparr> enabled = enabled (snd e), encryptedKey = [] \<rparr>"
      by simp
    with db' show "\<exists>db'. ?run = (None, db')
            \<and> map_of (coreAIProviders (written_doc (fst (getSettings db (a_userId args))) db')) (fst e)
                = Some \<lparr> enabled = enabled (snd e), encryptedKey = [] \<rparr>"
      by blast
  }
qed

theorem full_update_missing_entry_witness:
  "updateUserSettings example_encryptKey (Identity ''alice'') missing_custom_request registry_db
     = (Some TypeError, registry_db)
   \<and> (\<exists>err. updateUserSettings example_encryptKey (Identity ''alice'')
                inherited_name_request registry_db = (Some err, registry_db))
   \<and> (\<exists>db'. updateUserSettings example_encryptKey (Identity ''alice'') missing_core_request
                registry_db = (None, db')
            \<and> map_of (coreAIProviders (written_doc (Some 0) db')) ''anthropic''
                = Some \<lparr> enabled = True, encryptedKey = [] \<rparr>)"
proof -
  let ?e1 = "(''new-llm'', \<lparr> enabled = True, newKey = None, new_name = ''New LLM'',
                         new_endpoint = ''https://new.example/v1'' \<rparr>)"
  let ?e2 = "(''anthropic'', \<lparr> enabled = True, newKey = None \<rparr>)"
  have e1: "?e1 \<in> set (customProviders missing_custom_request)"
    by (simp add: missing_custom_request_def full_request_fields)
  have h1: "\<not> truthy (newKey (snd ?e1))
      \<and> js_get (customAIProviders (snd (getSettings registry_db (a_userId missing_custom_request))))
           (fst ?e1) = Undefined"
    by (simp add: missing_custom_request_def full_request_fields registry_db_custom js_get_def
        Object_prototype_keys_def)
  from full_update_missing_entry[where args = missing_custom_request and db = registry_db
      and encryptKey = example_encryptKey] e1 h1
  have 1: "updateUserSettings example_encryptKey (Identity (a_userId missing_custom_request))
             missing_custom_request registry_db = (Some TypeError, registry_db)"
    by blast
  let ?e3 = "(''toString'', \<lparr> enabled = True, newKey = None, new_name = ''New LLM'',
                         new_endpoint = ''https://new.example/v1'' \<rparr>)"
  have e3: "?e3 \<in> set (customProviders inherited_name_request)"
    by (simp add: inherited_name_request_def full_request_fields)
  have h3: "distinct (map fst (customProviders inherited_name_request))
      \<and> \<not> truthy (newKey (snd ?e3))
      \<and> map_of (customAIProviders
                  (snd (getSettings registry_db (a_userId inherited_name_request)))) (fst ?e3)
          = None"
    by (simp add: inherited_name_request_def full_request_fields registry_db_custom)
  from full_update_missing_entry[where args = inherited_name_request and db = registry_db
      and encryptKey = example_encryptKey] e3 h3
  have 3: "\<exists>err. updateUserSettings example_encryptKey
                   (Identity (a_userId inherited_name_request)) inherited_name_request registry_db
                 = (Some err, registry_db)"
    by blast
  have e2: "?e2 \<in> set (coreProviders missing_core_request)"
    by (simp add: missing_core_request_def full_request_fields)
  have h2: "customProviders missing_core_request = []
      \<and> general_keys_ok (a_generalProviders missing_core_request)
      \<and> distinct (map fst (coreProviders missing_core_request))
      \<and> \<not> truthy (newKey (snd ?e2))
      \<and> map_of (coreAIProviders (snd (getSettings registry_db (a_userId missing_core_request))))
           (fst ?e2) = None"
    by (simp add: missing_core_request_def full_request_fields registry_db_core
        general_keys_ok_def)
  from full_update_missing_entry[where args = missing_core_request and db = registry_db
      and encryptKey = example_encryptKey] e2 h2
  have 2: "\<exists>db'. updateUserSettings example_encryptKey (Identity (a_userId missing_core_request))
                missing_core_request registry_db = (None, db')
            \<and> map_of (coreAIProviders
                 (written_doc (fst (getSettings registry_db (a_userId missing_core_request))) db'))
                 (fst ?e2)
                = Some \<lparr> enabled = enabled (snd ?e2), encryptedKey = [] \<rparr>"
    by blast
  from 1 2 3 show ?thesis
    by (simp add: missing_custom_request_def missing_core_request_def
        inherited_name_request_def full_request_fields registry_db_id)
qed

section \<open>Partial update\<close>

lemma patch_custom_other:
  "k \<notin> fst ` set us \<Longrightarrow>
   (k \<in> fst ` set (patch_custom_providers enc us cur)) = (k \<in> fst ` set cur)"
proof (induction us arbitrary: cur)
  case Nil
  then show ?case by simp
next
  case (Cons u us)
  obtain k' v where u: "u = (k', v)" by (cases u)
  with Cons.prems have ne: "k \<noteq> k'" and notin: "k \<notin> fst ` set us" by auto
  show ?case
  proof (cases v)
    case None
    have "(k \<in> fst ` set (AList.delete k' cur)) = (k \<in> fst ` set cur)"
      using ne by (auto simp: AList.delete_eq)
    with None u Cons.IH[OF notin] show ?thesis by simp
  next
    case (Some w)
    with u Cons.IH[OF notin] ne show ?thesis by (simp add: dom_update)
  qed
qed

lemma patch_custom_deleted:
  "distinct (map fst us) \<Longrightarrow> (k, None) \<in> set us \<Longrightarrow>
   k \<notin> fst ` set (patch_custom_providers enc us cur)"
proof (induction us arbitrary: cur)
  case Nil
  then show ?case by simp
next
  case (Cons u us)
  show ?case
  proof (cases "u = (k, None)")
    case True
    with Cons.prems have "k \<notin> fst ` set us" by force
    from patch_custom_other[OF this] True show ?thesis
      by (simp add: delete_notin_dom)
  next
    case False
    with Cons.prems have "distinct (map fst us)" "(k, None) \<in> set us" by auto
    from Cons.IH[OF this] show ?thesis
      by (cases u; cases "snd u") auto
  qed
qed

lemma patch_models_other:
  "k \<notin> fst ` set us \<Longrightarrow>
   (k \<in> fst ` set (patch_custom_models us cur)) = (k \<in> fst ` set cur)"
proof (induction us arbitrary: cur)
  case Nil
  then show ?case by simp
next
  case (Cons u us)
  obtain k' v where u: "u = (k', v)" by (cases u)
  with Cons.prems have ne: "k \<noteq> k'" and notin: "k \<notin> fst ` set us" by auto
  show ?case
  proof (cases v)
    case None
    have "(k \<in> fst ` set (AList.delete k' cur)) = (k \<in> fst ` set cur)"
      using ne by (auto simp: AList.delete_eq)
    with None u Cons.IH[OF notin] show ?thesis by simp
  next
    case (Some w)
    with u Cons.IH[OF notin] ne show ?thesis by (simp add: dom_update)
  qed
qed

lemma patch_models_deleted:
  "distinct (map fst us) \<Longrightarrow> (k, None) \<in> set us \<Longrightarrow>
   k \<notin> fst ` set (patch_custom_models us cur)"
proof (induction us arbitrary: cur)
  case Nil
  then show ?case by simp
next
  case (Cons u us)
  show ?case
  proof (cases "u = (k, None)")
    case True
    with Cons.prems have "k \<notin> fst ` set us" by force
    from patch_models_other[OF this] True show ?thesis
      by (simp add: delete_notin_dom)
  next
    case False
    with Cons.prems have "distinct (map fst us)" "(k, None) \<in> set us" by auto
    from Cons.IH[OF this] show ?thesis
      by (cases u; cases "snd u") auto
  qed
qed

lemma patch_general_keys:
  "fst ` set (patch_general_providers enc sh us cur) = fst ` set cur \<union> fst ` set us"
proof (induction us arbitrary: cur)
  case Nil
  then show ?case by simp
next
  case (Cons u us)
  obtain k v where u: "u = (k, v)" by (cases u)
  have "fst ` set (patch_general_providers enc sh (u # us) cur)
          = fst ` set (AList.update k
                (general_entry enc k v (if sh then optional_key (js_get cur k) else None)) cur)
            \<union> fst ` set us"
    using u Cons.IH by simp
  also have "\<dots> = ({k} \<union> fst ` set cur) \<union> fst ` set us"
    by (simp only: dom_update)
  also have "\<dots> = fst ` set cur \<union> fst ` set (u # us)"
    using u by auto
  finally show ?case .
qed

lemma apply_base_fields:
  "userId (apply_base args s) = userId s"
  "customAIProviders (apply_base args s) = customAIProviders s"
  "customModels (apply_base args s) = customModels s"
  "generalProviders (apply_base args s) = generalProviders s"
  by (simp_all add: apply_base_def Let_def split: option.splits)

lemma apply_providers_fields:
  "userId (apply_providers enc args s) = userId s"
  "customModels (apply_providers enc args s) = customModels s"
  "customAIProviders (apply_providers enc args s)
     = (case customProviderUpdates args of
          None \<Rightarrow> customAIProviders s
        | Some us \<Rightarrow> patch_custom_providers enc us (customAIProviders s))"
  "generalProviders (apply_providers enc args s)
     = (case generalProviderUpdates args of
          None \<Rightarrow> generalProviders s
        | Some us \<Rightarrow>
            (case generalProviders s of
               None \<Rightarrow> Some (patch_general_providers enc False us [])
             | Some g \<Rightarrow> Some (patch_general_providers enc True us g)))"
  by (simp_all add: apply_providers_def Let_def split: option.splits)

lemma apply_models_fields:
  "userId (apply_models args s) = userId s"
  "customAIProviders (apply_models args s) = customAIProviders s"
  "generalProviders (apply_models args s) = generalProviders s"
  "customModels (apply_models args s)
     = (case customModelUpdates args of
          None \<Rightarrow> customModels s
        | Some us \<Rightarrow> patch_custom_models us (customModels s))"
  by (simp_all add: apply_models_def Let_def split: option.splits)

lemma apply_themes_fields:
  "userId (apply_themes args s) = userId s"
  "customAIProviders (apply_themes args s) = customAIProviders s"
  "customModels (apply_themes args s) = customModels s"
  "generalProviders (apply_themes args s) = generalProviders s"
  by (simp_all add: apply_themes_def Let_def split: option.splits)

lemmas partial_fields =
  apply_themes_fields apply_models_fields apply_providers_fields apply_base_fields

lemma partial_userId:
  "userId (apply_themes args (apply_models args (apply_providers enc args (apply_base args st))))
     = userId st"
  by (simp add: partial_fields)

lemma partial_customAIProviders:
  "customAIProviders
     (apply_themes args (apply_models args (apply_providers enc args (apply_base args st))))
     = (case customProviderUpdates args of
          None \<Rightarrow> customAIProviders st
        | Some us \<Rightarrow> patch_custom_providers enc us (customAIProviders st))"
  by (simp add: partial_fields cong: option.case_cong)

lemma partial_customModels:
  "customModels
     (apply_themes args (apply_models args (apply_providers enc args (apply_base args st))))
     = (case customModelUpdates args of
          None \<Rightarrow> customModels st
        | Some us \<Rightarrow> patch_custom_models us (customModels st))"
  by (simp add: partial_fields cong: option.case_cong)

lemma partial_generalProviders:
  "generalProviders
     (apply_themes args (apply_models args (apply_providers enc args (apply_base args st))))
     = (case generalProviderUpdates args of
          None \<Rightarrow> generalProviders st
        | Some us \<Rightarrow>
            (case generalProviders st of
               None \<Rightarrow> Some (patch_general_providers enc False us [])
             | Some g \<Rightarrow> Some (patch_general_providers enc True us g)))"
  by (simp add: partial_fields cong: option.case_cong)

lemma partial_schema_ok:
  assumes "schema_ok st" and "general_keys_ok (generalProviderUpdates args)"
  shows "schema_ok
           (apply_themes args (apply_models args (apply_providers enc args (apply_base args st))))"
  using assms
  by (auto simp: schema_ok_iff general_keys_ok_iff partial_generalProviders patch_general_keys
      split: option.splits)

text \<open>
  C8. On a table of valid documents, a partial update of an identified caller whose
  general provider updates, if any, name known providers succeeds, and in the settings
  read afterwards every key that \<^verbatim>\<open>customProviderUpdates\<close> maps to \<^verbatim>\<open>null\<close> is
  absent from \<^verbatim>\<open>customAIProviders\<close>, and every key that \<^verbatim>\<open>customModelUpdates\<close> maps
  to \<^verbatim>\<open>null\<close> is absent from \<^verbatim>\<open>customModels\<close>. The entries of each request object
  have distinct keys.
\<close>

theorem partial_update_null_deletes:
  assumes "list_all schema_ok db" and "general_keys_ok (generalProviderUpdates args)"
  shows "\<exists>db'. updateUserSettingsPartial encryptKey (Identity uid) args db = (None, db')
     \<and> (\<forall>ups. customProviderUpdates args = Some ups \<and> distinct (map fst ups) \<longrightarrow>
           (\<forall>k. (k, None) \<in> set ups \<longrightarrow>
                k \<notin> fst ` set (customAIProviders (snd (getSettings db' uid)))))
     \<and> (\<forall>ums. customModelUpdates args = Some ums \<and> distinct (map fst ums) \<longrightarrow>
           (\<forall>k. (k, None) \<in> set ums \<longrightarrow>
                k \<notin> fst ` set (customModels (snd (getSettings db' uid)))))"
proof -
  let ?st = "snd (getSettings db uid)"
  let ?new = "apply_themes args (apply_models args
                (apply_providers encryptKey args (apply_base args ?st)))"
  have st: "schema_ok ?st" by (rule getSettings_schema_ok[OF assms(1)])
  have new: "schema_ok ?new" by (rule partial_schema_ok[OF st assms(2)])
  from save_ok[OF patch_doc_schema_ok[OF st new] new]
  obtain db' where sv: "save db (fst (getSettings db uid)) ?new = (None, db')" ..
  then have run: "updateUserSettingsPartial encryptKey (Identity uid) args db = (None, db')"
    by (simp add: updateUserSettingsPartial_def Let_def)
  have uid: "userId ?new = uid"
    by (simp add: partial_userId getSettings_userId)
  from save_written[OF sv] uid obtain old where
    doc: "snd (getSettings db' uid) = patch_doc old ?new"
    by auto
  have 1: "k \<notin> fst ` set (customAIProviders (snd (getSettings db' uid)))"
    if "customProviderUpdates args = Some ups" "distinct (map fst ups)" "(k, None) \<in> set ups"
    for ups k
    using that patch_custom_deleted[OF that(2,3)]
    by (simp add: doc patch_doc_fields partial_customAIProviders)
  have 2: "k \<notin> fst ` set (customModels (snd (getSettings db' uid)))"
    if "customModelUpdates args = Some ums" "distinct (map fst ums)" "(k, None) \<in> set ums"
    for ums k
    using that patch_models_deleted[OF that(2,3)]
    by (simp add: doc patch_doc_fields partial_customModels)
  from run 1 2 show ?thesis by blast
qed

theorem partial_update_null_deletes_witness:
  "''my-llm'' \<in> fst ` set (customAIProviders (snd (getSettings registry_db ''alice'')))
   \<and> ''my-model'' \<in> fst ` set (customModels (snd (getSettings registry_db ''alice'')))
   \<and> (\<exists>db'. updateUserSettingsPartial example_encryptKey (Identity ''alice'') delete_request
               registry_db = (None, db')
        \<and> ''my-llm'' \<notin> fst ` set (customAIProviders (snd (getSettings db' ''alice'')))
        \<and> ''my-model'' \<notin> fst ` set (customModels (snd (getSettings db' ''alice''))))"
proof -
  have g: "general_keys_ok (generalProviderUpdates delete_request)"
    by (simp add: delete_request_def no_updates_def general_keys_ok_def)
  from partial_update_null_deletes[OF registry_db_valid g, where uid = "''alice''"
      and encryptKey = example_encryptKey]
  obtain db' where run: "updateUserSettingsPartial example_encryptKey (Identity ''alice'')
                           delete_request registry_db = (None, db')"
    and p: "\<forall>ups. customProviderUpdates delete_request = Some ups \<and> distinct (map fst ups) \<longrightarrow>
           (\<forall>k. (k, None) \<in> set ups \<longrightarrow>
                k \<notin> fst ` set (customAIProviders (snd (getSettings db' ''alice''))))"
    and m: "\<forall>ums. customModelUpdates delete_request = Some ums \<and> distinct (map fst ums) \<longrightarrow>
           (\<forall>k. (k, None) \<in> set ums \<longrightarrow>
                k \<notin> fst ` set (customModels (snd (getSettings db' ''alice''))))"
    by blast
  from p have 1: "''my-llm'' \<notin> fst ` set (customAIProviders (snd (getSettings db' ''alice'')))"
    by (simp add: delete_request_def no_updates_def)
  from m have 2: "''my-model'' \<notin> fst ` set (customModels (snd (getSettings db' ''alice'')))"
    by (simp add: delete_request_def no_updates_def)
  have 0: "''my-llm'' \<in> fst ` set (customAIProviders (snd (getSettings registry_db ''alice'')))"
    "''my-model'' \<in> fst ` set (customModels (snd (getSettings registry_db ''alice'')))"
    by (simp_all add: registry_db_custom registry_db_customModels)
  from 0 run 1 2 show ?thesis by blast
qed

end
